theory Spec2Isabelle
  imports Complex_Main
begin

section \<open>Tensors, floating-point values and the framework operations used by the notebook\<close>

text \<open>
  The notebook \<^verbatim>\<open>Attention_is_All_You_Need/main.ipynb\<close> builds its model from
  framework tensors. A tensor is modelled by its shape and by the element stored at
  every multi-index. Sizes given by the caller are Python integers (\<open>int\<close>); the sizes of
  an existing tensor are natural numbers. Every exception the Python code can raise is a
  value \<open>Inl e\<close> of the result: \<open>RuntimeError\<close>, \<open>ZeroDivisionError\<close>, \<open>IndexError\<close> and
  \<open>ValueError\<close> are Python's; \<open>ShapeMismatch\<close> and \<open>InvalidDimension\<close> are the two errors
  that the specification names.
\<close>

datatype error =
  RuntimeError | ZeroDivisionError | IndexError | ValueError | ShapeMismatch | InvalidDimension

record 'a tensor =
  shape :: "nat list"
  elem :: "nat list \<Rightarrow> 'a"

definition ebind :: "error + 'a \<Rightarrow> ('a \<Rightarrow> error + 'b) \<Rightarrow> error + 'b" where
  "ebind m f = (case m of Inl e \<Rightarrow> Inl e | Inr v \<Rightarrow> f v)"

text \<open>
  The elements of the notebook's tensors are 32-bit floating-point values: a finite number,
  plus or minus infinity, or NaN. How the framework rounds is not part of the notebook, so
  the floating-point operations are a parameter \<open>A\<close> of every function that computes with
  elements:
  \<^item> \<open>fl_of_int\<close>, the conversion of an integer (\<^verbatim>\<open>dtype=torch.float\<close>, \<^verbatim>\<open>.float()\<close>);
  \<^item> \<open>fl_of_real\<close>, the element with which the framework computes when a Python float takes
    part in a tensor operation; its argument is the number that the Python expression
    denotes in exact arithmetic;
  \<^item> \<open>fl_mul\<close>, \<open>fl_add\<close>, \<open>fl_exp\<close>, \<open>fl_sin\<close>, \<open>fl_cos\<close>, the elementwise kernels;
  \<^item> \<open>fl_affine\<close>, the kernel of a linear layer: from a row of the input, a row of the
    weights and a bias to one output element.
\<close>

datatype fval = Fin real | PInf | NInf | NaN

record arith =
  fl_of_int :: "int \<Rightarrow> fval"
  fl_of_real :: "real \<Rightarrow> fval"
  fl_mul :: "fval \<Rightarrow> fval \<Rightarrow> fval"
  fl_add :: "fval \<Rightarrow> fval \<Rightarrow> fval"
  fl_exp :: "fval \<Rightarrow> fval"
  fl_sin :: "fval \<Rightarrow> fval"
  fl_cos :: "fval \<Rightarrow> fval"
  fl_affine :: "fval list \<Rightarrow> fval list \<Rightarrow> fval \<Rightarrow> fval"

definition is_finite :: "fval \<Rightarrow> bool" where
  "is_finite v = (case v of Fin r \<Rightarrow> True | _ \<Rightarrow> False)"

text \<open>
  Exact arithmetic, the idealisation without rounding and without overflow, is one
  instance; an operand that is not finite gives NaN.
\<close>

definition lift1 :: "(real \<Rightarrow> real) \<Rightarrow> fval \<Rightarrow> fval" where
  "lift1 f v = (case v of Fin a \<Rightarrow> Fin (f a) | _ \<Rightarrow> NaN)"

definition lift2 :: "(real \<Rightarrow> real \<Rightarrow> real) \<Rightarrow> fval \<Rightarrow> fval \<Rightarrow> fval" where
  "lift2 f v w = (case v of Fin a \<Rightarrow> (case w of Fin b \<Rightarrow> Fin (f a b) | _ \<Rightarrow> NaN) | _ \<Rightarrow> NaN)"

definition exact_arith :: arith where
  "exact_arith =
     \<lparr>fl_of_int = (\<lambda>n. Fin (real_of_int n)),
      fl_of_real = Fin,
      fl_mul = lift2 (*),
      fl_add = lift2 (+),
      fl_exp = lift1 exp,
      fl_sin = lift1 sin,
      fl_cos = lift1 cos,
      fl_affine = (\<lambda>xs ws b. lift2 (+) (foldr (lift2 (+)) (map2 (lift2 (*)) xs ws) (Fin 0)) b)\<rparr>"

text \<open>
  The framework refuses to create a tensor whose sizes do not fit a signed 64-bit integer
  or whose storage, the number of elements times the bytes of one element, exceeds
  \<open>2\<^sup>6\<^sup>3 - 1\<close> bytes. The model has no other limit of memory: a tensor within these bounds
  is created, as on a machine that has the memory for it.
\<close>

definition storage_max :: nat where
  "storage_max = 2 ^ 63 - 1"

definition storage_ok :: "nat \<Rightarrow> nat list \<Rightarrow> bool" where
  "storage_ok itemsize sizes \<longleftrightarrow>
     list_all (\<lambda>s. s \<le> storage_max) sizes \<and> itemsize * prod_list sizes \<le> storage_max"

text \<open>
  \<^verbatim>\<open>torch.zeros(*sizes)\<close>, a tensor of 32-bit floats (4 bytes each): a negative size and
  a storage that is too large are refused.
\<close>

definition zeros :: "int list \<Rightarrow> error + fval tensor" where
  "zeros sizes =
     (if list_ex (\<lambda>s. s < 0) sizes \<or> \<not> storage_ok 4 (map nat sizes) then Inl RuntimeError
      else Inr \<lparr>shape = map nat sizes, elem = (\<lambda>idx. Fin 0)\<rparr>)"

text \<open>
  \<^verbatim>\<open>torch.arange(start, stop, step)\<close> for a positive step: the values
  \<open>start, start + step, ...\<close> below \<open>stop\<close>. Bounds that are inconsistent with the sign of
  the step are refused. Without a \<^verbatim>\<open>dtype\<close> the result is a tensor of 64-bit integers
  (8 bytes each); with \<^verbatim>\<open>dtype=torch.float\<close> it is a tensor of the 32-bit floats of
  these integers.
\<close>

definition arange_len :: "int \<Rightarrow> int \<Rightarrow> int \<Rightarrow> nat" where
  "arange_len start stop step = nat ((stop - start + step - 1) div step)"

definition arange_int :: "int \<Rightarrow> int \<Rightarrow> int \<Rightarrow> error + int tensor" where
  "arange_int start stop step =
     (if step \<le> 0 \<or> stop < start \<or> \<not> storage_ok 8 [arange_len start stop step]
      then Inl RuntimeError
      else Inr \<lparr>shape = [arange_len start stop step],
                elem = (\<lambda>idx. start + step * int (idx ! 0))\<rparr>)"

definition arange_float :: "arith \<Rightarrow> int \<Rightarrow> int \<Rightarrow> int \<Rightarrow> error + fval tensor" where
  "arange_float A start stop step =
     (if step \<le> 0 \<or> stop < start \<or> \<not> storage_ok 4 [arange_len start stop step]
      then Inl RuntimeError
      else Inr \<lparr>shape = [arange_len start stop step],
                elem = (\<lambda>idx. fl_of_int A (start + step * int (idx ! 0)))\<rparr>)"

text \<open>\<^verbatim>\<open>t.unsqueeze(ax)\<close> inserts an axis of size 1 at position \<open>ax\<close>.\<close>

definition unsqueeze :: "nat \<Rightarrow> 'a tensor \<Rightarrow> error + 'a tensor" where
  "unsqueeze ax t =
     (if length (shape t) < ax then Inl IndexError
      else Inr \<lparr>shape = take ax (shape t) @ [1] @ drop ax (shape t),
                elem = (\<lambda>idx. elem t (take ax idx @ drop (Suc ax) idx))\<rparr>)"

text \<open>\<^verbatim>\<open>t.transpose(d0, d1)\<close> swaps two axes.\<close>

definition transpose_t :: "nat \<Rightarrow> nat \<Rightarrow> 'a tensor \<Rightarrow> error + 'a tensor" where
  "transpose_t d0 d1 t =
     (if length (shape t) \<le> d0 \<or> length (shape t) \<le> d1 then Inl IndexError
      else Inr \<lparr>shape = (shape t)[d0 := shape t ! d1, d1 := shape t ! d0],
                elem = (\<lambda>idx. elem t (idx[d0 := idx ! d1, d1 := idx ! d0]))\<rparr>)"

text \<open>
  Elementwise functions (\<^verbatim>\<open>torch.exp\<close>, \<^verbatim>\<open>torch.sin\<close>, \<^verbatim>\<open>torch.cos\<close>,
  \<^verbatim>\<open>t.float()\<close>) and the product \<^verbatim>\<open>t * c\<close> of a tensor and a Python float.
\<close>

definition map_t :: "('a \<Rightarrow> 'b) \<Rightarrow> 'a tensor \<Rightarrow> 'b tensor" where
  "map_t f t = \<lparr>shape = shape t, elem = (\<lambda>idx. f (elem t idx))\<rparr>"

definition to_float :: "arith \<Rightarrow> int tensor \<Rightarrow> fval tensor" where
  "to_float A t = map_t (fl_of_int A) t"

definition mul_scalar :: "arith \<Rightarrow> fval tensor \<Rightarrow> real \<Rightarrow> fval tensor" where
  "mul_scalar A t c = map_t (\<lambda>v. fl_mul A v (fl_of_real A c)) t"

text \<open>
  Broadcasting of two shapes: the shapes are aligned at their last axis; two sizes are
  compatible when they are equal or one of them is 1.
\<close>

fun broadcast_rev :: "nat list \<Rightarrow> nat list \<Rightarrow> nat list option" where
  "broadcast_rev [] ys = Some ys"
| "broadcast_rev xs [] = Some xs"
| "broadcast_rev (x # xs) (y # ys) =
     (if x = y \<or> y = 1 then map_option ((#) x) (broadcast_rev xs ys)
      else if x = 1 then map_option ((#) y) (broadcast_rev xs ys)
      else None)"

definition broadcast_shapes :: "nat list \<Rightarrow> nat list \<Rightarrow> nat list option" where
  "broadcast_shapes a b = map_option rev (broadcast_rev (rev a) (rev b))"

text \<open>
  The index at which a tensor of shape \<open>s\<close> is read when it stands for a tensor with more
  or larger axes: aligned at the last axis, an axis of size 1 is always read at 0.
\<close>

definition bidx :: "nat list \<Rightarrow> nat list \<Rightarrow> nat list" where
  "bidx s idx =
     map2 (\<lambda>n i. if n = 1 then 0 else i) s
       (replicate (length s - length idx) 0 @ drop (length idx - length s) idx)"

definition binop :: "('a \<Rightarrow> 'a \<Rightarrow> 'a) \<Rightarrow> 'a tensor \<Rightarrow> 'a tensor \<Rightarrow> error + 'a tensor" where
  "binop f a b =
     (case broadcast_shapes (shape a) (shape b) of
        None \<Rightarrow> Inl RuntimeError
      | Some r \<Rightarrow>
          Inr \<lparr>shape = r,
               elem = (\<lambda>idx. f (elem a (bidx (shape a) idx)) (elem b (bidx (shape b) idx)))\<rparr>)"

definition mul_t :: "arith \<Rightarrow> fval tensor \<Rightarrow> fval tensor \<Rightarrow> error + fval tensor" where
  "mul_t A = binop (fl_mul A)"

definition add_t :: "arith \<Rightarrow> fval tensor \<Rightarrow> fval tensor \<Rightarrow> error + fval tensor" where
  "add_t A = binop (fl_add A)"

text \<open>
  Python slices. \<open>slice_len n s k\<close> is the number of indices \<open>s, s + k, ...\<close> below \<open>n\<close>,
  the length of \<^verbatim>\<open>range(n)[s::k]\<close>.
\<close>

definition slice_len :: "nat \<Rightarrow> nat \<Rightarrow> nat \<Rightarrow> nat" where
  "slice_len n s k = (n - s + (k - 1)) div k"

text \<open>
  \<^verbatim>\<open>torch.Tensor.expand\<close>, as the slice assignment uses it: the source's axes, aligned
  at the last axis of the target, must each be equal to the target's or of size 1 (a size 1
  also expands to a target of size 0).
\<close>

definition expandable :: "nat list \<Rightarrow> nat list \<Rightarrow> bool" where
  "expandable src dst \<longleftrightarrow>
     length src \<le> length dst \<and>
     list_all (\<lambda>(a, b). a = b \<or> a = 1) (zip (rev src) (rev dst))"

text \<open>
  \<^verbatim>\<open>t[:, s::k] = v\<close> on a matrix \<open>t\<close>: the value is copied into the columns
  \<open>s, s + k, ...\<close>. When the shape of \<open>v\<close> is not the shape of the slice, the leading axes of
  size 1 of \<open>v\<close> are dropped and the rest is expanded to the slice; a value that cannot be
  expanded is refused.
\<close>

definition setitem_cols :: "'a tensor \<Rightarrow> nat \<Rightarrow> nat \<Rightarrow> 'a tensor \<Rightarrow> error + 'a tensor" where
  "setitem_cols t s k v =
     (if length (shape t) \<noteq> 2 then Inl IndexError
      else
        let dst = [shape t ! 0, slice_len (shape t ! 1) s k] in
        if dst = shape v \<or> expandable (dropWhile (\<lambda>n. n = 1) (shape v)) dst then
          Inr \<lparr>shape = shape t,
               elem = (\<lambda>idx. if s \<le> idx ! 1 \<and> (idx ! 1 - s) mod k = 0
                              then elem v (bidx (shape v) [idx ! 0, (idx ! 1 - s) div k])
                              else elem t idx)\<rparr>
        else Inl RuntimeError)"

text \<open>
  \<^verbatim>\<open>t[:n, :]\<close>: the first \<open>n\<close> entries along axis 0 (all of them when there are fewer);
  the tensor needs at least two axes.
\<close>

definition slice_rows :: "'a tensor \<Rightarrow> nat \<Rightarrow> error + 'a tensor" where
  "slice_rows t n =
     (case shape t of
        d0 # d1 # rest \<Rightarrow> Inr \<lparr>shape = min n d0 # d1 # rest, elem = elem t\<rparr>
      | _ \<Rightarrow> Inl IndexError)"

text \<open>\<^verbatim>\<open>t.size(0)\<close>: a tensor without axes has no size 0.\<close>

definition size0 :: "'a tensor \<Rightarrow> error + nat" where
  "size0 t = (case shape t of [] \<Rightarrow> Inl IndexError | d0 # _ \<Rightarrow> Inr d0)"

text \<open>Python's \<^verbatim>\<open>a / b\<close> of a float by an integer.\<close>

definition py_div :: "real \<Rightarrow> int \<Rightarrow> error + real" where
  "py_div a b = (if b = 0 then Inl ZeroDivisionError else Inr (a / real_of_int b))"

section \<open>Positional encoding\<close>

text \<open>
  \<^verbatim>\<open>
  class PositionalEncoding(nn.Module):
      def __init__(self, d_model, max_len=5000):
          pe = torch.zeros(max_len, d_model)
          position = torch.arange(0, max_len, dtype=torch.float).unsqueeze(1)
          div_term = torch.exp(torch.arange(0, d_model, 2).float() * (-math.log(10000.0) / d_model))
          pe[:, 0::2] = torch.sin(position * div_term)
          pe[:, 1::2] = torch.cos(position * div_term)
          pe = pe.unsqueeze(0).transpose(0, 1)
          self.register_buffer('pe', pe)

      def forward(self, x):
          return x + self.pe[:x.size(0), :]
  \<close>
  The module's state is its buffer \<open>pe\<close>. \<open>forward\<close> returns its result together with the
  module, which is how the model records what a call does to the stored table. The
  floating-point operations \<open>A\<close> are those of the machine that runs the notebook.
\<close>

record PositionalEncoding =
  pe :: "fval tensor"

text \<open>The local \<^verbatim>\<open>div_term\<close> of the constructor.\<close>

definition div_term :: "arith \<Rightarrow> int \<Rightarrow> error + fval tensor" where
  "div_term A d_model =
     ebind (arange_int 0 d_model 2) (\<lambda>a.
     ebind (py_div (- ln 10000) d_model) (\<lambda>c.
     Inr (map_t (fl_exp A) (mul_scalar A (to_float A a) c))))"

definition PositionalEncoding_init :: "arith \<Rightarrow> int \<Rightarrow> int \<Rightarrow> error + PositionalEncoding" where
  "PositionalEncoding_init A d_model max_len =
     ebind (zeros [max_len, d_model]) (\<lambda>pe0.
     ebind (arange_float A 0 max_len 1) (\<lambda>r.
     ebind (unsqueeze 1 r) (\<lambda>position.
     ebind (div_term A d_model) (\<lambda>dt.
     ebind (mul_t A position dt) (\<lambda>ang0.
     ebind (setitem_cols pe0 0 2 (map_t (fl_sin A) ang0)) (\<lambda>pe1.
     ebind (mul_t A position dt) (\<lambda>ang1.
     ebind (setitem_cols pe1 1 2 (map_t (fl_cos A) ang1)) (\<lambda>pe2.
     ebind (unsqueeze 0 pe2) (\<lambda>pe3.
     ebind (transpose_t 0 1 pe3) (\<lambda>pe4.
     Inr \<lparr>pe = pe4\<rparr>))))))))))"

text \<open>The default of the parameter \<^verbatim>\<open>max_len\<close>.\<close>

definition max_len_default :: int where
  "max_len_default = 5000"

definition PositionalEncoding_forward ::
  "arith \<Rightarrow> PositionalEncoding \<Rightarrow> fval tensor \<Rightarrow> (error + fval tensor) \<times> PositionalEncoding" where
  "PositionalEncoding_forward A self x =
     (ebind (size0 x) (\<lambda>n.
      ebind (slice_rows (pe self) n) (\<lambda>table.
      add_t A x table)), self)"

text \<open>Several forward passes, one after the other, on the module as the last pass left it.\<close>

fun forward_passes ::
  "arith \<Rightarrow> PositionalEncoding \<Rightarrow> fval tensor list \<Rightarrow>
   (error + fval tensor) list \<times> PositionalEncoding" where
  "forward_passes A self [] = ([], self)"
| "forward_passes A self (x # xs) =
     (let (y, self1) = PositionalEncoding_forward A self x;
          (ys, self2) = forward_passes A self1 xs
      in (y # ys, self2))"

text \<open>
  The angle in the words of the specification, for the position \<open>p\<close> and the dimension
  index \<open>i\<close>: \<open>angle = p / 10000^(2i / model_dimension)\<close>.
\<close>

definition spec_angle :: "int \<Rightarrow> nat \<Rightarrow> nat \<Rightarrow> real" where
  "spec_angle model_dimension p i =
     real p / 10000 powr (real (2 * i) / real_of_int model_dimension)"

text \<open>
  What floating-point arithmetic guarantees whatever its rounding, on the ranges that the
  constructor meets: an integer between 0 and \<open>2\<^sup>6\<^sup>3\<close> converts to a finite number of that
  range, and 0 to 0; a Python float between -10000 and 0 stays in that range; a product
  whose exact value is at most \<open>2\<^sup>8\<^sup>0\<close> in absolute value is finite, at most \<open>2\<^sup>8\<^sup>0\<close> in
  absolute value, and has the sign of the exact product; the exponential of a number that
  is not positive lies between 0 and 1; the sine and the cosine of a finite number are
  finite, \<open>sin 0 = 0\<close> and \<open>cos 0 = 1\<close>.
\<close>

definition ieee_like :: "arith \<Rightarrow> bool" where
  "ieee_like A \<longleftrightarrow>
     (\<forall>n. 0 \<le> n \<and> n \<le> 2 ^ 63 \<longrightarrow> (\<exists>r. fl_of_int A n = Fin r \<and> 0 \<le> r \<and> r \<le> 2 ^ 63)) \<and>
     fl_of_int A 0 = Fin 0 \<and>
     (\<forall>x. - 10000 \<le> x \<and> x \<le> 0 \<longrightarrow> (\<exists>r. fl_of_real A x = Fin r \<and> - 10000 \<le> r \<and> r \<le> 0)) \<and>
     (\<forall>a b. \<bar>a * b\<bar> \<le> 2 ^ 80 \<longrightarrow>
        (\<exists>r. fl_mul A (Fin a) (Fin b) = Fin r \<and> \<bar>r\<bar> \<le> 2 ^ 80 \<and>
             (0 \<le> a * b \<longrightarrow> 0 \<le> r) \<and> (a * b \<le> 0 \<longrightarrow> r \<le> 0))) \<and>
     (\<forall>a. a \<le> 0 \<longrightarrow> (\<exists>r. fl_exp A (Fin a) = Fin r \<and> 0 \<le> r \<and> r \<le> 1)) \<and>
     (\<forall>a. is_finite (fl_sin A (Fin a)) \<and> is_finite (fl_cos A (Fin a))) \<and>
     fl_sin A (Fin 0) = Fin 0 \<and> fl_cos A (Fin 0) = Fin 1"

text \<open>
  The direct-power formulation of the factor of the dimension index \<open>i\<close>, in the words of
  the specification: \<open>10000^(-(2i / model_dimension))\<close>.
\<close>

definition direct_power :: "int \<Rightarrow> nat \<Rightarrow> real" where
  "direct_power model_dimension i = 10000 powr (- (real (2 * i) / real_of_int model_dimension))"


text \<open>
  How accurate an arithmetic is, on the ranges that the constructor meets and where a
  32-bit float neither overflows nor underflows: the conversion of an integer between 0 and
  \<open>2\<^sup>6\<^sup>3\<close>, the conversion of a Python float between -10000 and \<open>-2\<^sup>-\<^sup>1\<^sup>0\<^sup>0\<close>, a product
  that is 0 or between \<open>2\<^sup>-\<^sup>1\<^sup>0\<^sup>0\<close> and \<open>2\<^sup>8\<^sup>0\<close> in absolute value, and the exponential of a
  number between -16 and 0 return the exact result times \<open>1 + e\<close> with \<open>\<bar>e\<bar> \<le> u\<close>. For 32-bit
  floats \<open>u\<close> is of the order of \<open>2\<^sup>-\<^sup>2\<^sup>3\<close>; exact arithmetic has \<open>u = 0\<close>.
\<close>

definition accurate :: "arith \<Rightarrow> real \<Rightarrow> bool" where
  "accurate A u \<longleftrightarrow>
     (\<forall>n. 0 \<le> n \<and> n \<le> 2 ^ 63 \<longrightarrow>
        (\<exists>e. \<bar>e\<bar> \<le> u \<and> fl_of_int A n = Fin (real_of_int n * (1 + e)))) \<and>
     (\<forall>x. - 10000 \<le> x \<and> x \<le> - (1 / 2 ^ 100) \<longrightarrow>
        (\<exists>e. \<bar>e\<bar> \<le> u \<and> fl_of_real A x = Fin (x * (1 + e)))) \<and>
     (\<forall>a b. a * b = 0 \<or> 1 / 2 ^ 100 \<le> \<bar>a * b\<bar> \<and> \<bar>a * b\<bar> \<le> 2 ^ 80 \<longrightarrow>
        (\<exists>e. \<bar>e\<bar> \<le> u \<and> fl_mul A (Fin a) (Fin b) = Fin (a * b * (1 + e)))) \<and>
     (\<forall>a. - 16 \<le> a \<and> a \<le> 0 \<longrightarrow>
        (\<exists>e. \<bar>e\<bar> \<le> u \<and> fl_exp A (Fin a) = Fin (exp a * (1 + e))))"

text \<open>
  The three tensors whose sizes the constructor gives: the table, the vector of positions
  and the vector of the even indices.
\<close>

definition init_sizes_ok :: "int \<Rightarrow> int \<Rightarrow> bool" where
  "init_sizes_ok d_model max_len \<longleftrightarrow>
     storage_ok 4 [nat max_len, nat d_model] \<and> storage_ok 4 [nat max_len] \<and>
     storage_ok 8 [(nat d_model + 1) div 2]"

section \<open>The transformer model\<close>

text \<open>
  \<^verbatim>\<open>
  class TransformerModel(nn.Module):
      def __init__(self, ntoken, d_model, nhead, nhid, nlayers, dropout=0.5):
          self.pos_encoder = PositionalEncoding(d_model)
          encoder_layers = nn.TransformerEncoderLayer(d_model, nhead, nhid, dropout)
          self.transformer_encoder = nn.TransformerEncoder(encoder_layers, nlayers)
          self.encoder = nn.Embedding(ntoken, d_model)
          self.d_model = d_model
          self.decoder = nn.Linear(d_model, ntoken)
          self.init_weights()

      def forward(self, src, src_mask):
          src = self.encoder(src) * math.sqrt(self.d_model)
          src = self.pos_encoder(src)
          output = self.transformer_encoder(src, src_mask)
          output = self.decoder(output)
          return output
  \<close>
  The encoder stack \<^verbatim>\<open>nn.TransformerEncoder\<close> belongs to the framework and is a
  parameter of the model, as the framework has built it from \<^verbatim>\<open>nhead\<close>, \<^verbatim>\<open>nhid\<close>,
  \<^verbatim>\<open>nlayers\<close> and \<^verbatim>\<open>dropout\<close>: a function from the input and the mask to a result.
  The construction of the stack by the framework, which refuses some of these arguments, is
  not modelled; the constructor below is the construction of all the rest. The weights that
  \<^verbatim>\<open>init_weights\<close> draws at random are parameters as well.
\<close>

text \<open>All multi-indices of a shape.\<close>

fun indices :: "nat list \<Rightarrow> nat list list" where
  "indices [] = [[]]"
| "indices (n # ns) = concat (map (\<lambda>i. map ((#) i) (indices ns)) [0..<n])"

text \<open>A parameter tensor of 32-bit floats of the given sizes, holding the given values.\<close>

definition new_parameter :: "int list \<Rightarrow> (nat list \<Rightarrow> fval) \<Rightarrow> error + fval tensor" where
  "new_parameter sizes vals =
     (if list_ex (\<lambda>s. s < 0) sizes \<or> \<not> storage_ok 4 (map nat sizes) then Inl RuntimeError
      else Inr \<lparr>shape = map nat sizes, elem = vals\<rparr>)"

text \<open>
  \<^verbatim>\<open>nn.Embedding\<close>: every token selects a row of the weight matrix. A token outside the
  table is refused, with an \<open>IndexError\<close>, and with a \<open>RuntimeError\<close> when the table is empty.
\<close>

definition embedding :: "'v tensor \<Rightarrow> int tensor \<Rightarrow> error + 'v tensor" where
  "embedding W src =
     (if list_all (\<lambda>idx. 0 \<le> elem src idx \<and> elem src idx < int (shape W ! 0)) (indices (shape src))
      then Inr \<lparr>shape = shape src @ [shape W ! 1],
                elem = (\<lambda>idx. elem W [nat (elem src (butlast idx)), last idx])\<rparr>
      else if shape W ! 0 = 0 then Inl RuntimeError
      else Inl IndexError)"

text \<open>\<^verbatim>\<open>nn.Linear\<close>: \<open>y = x W\<^sup>T + b\<close> along the last axis.\<close>

definition linear_layer :: "arith \<Rightarrow> fval tensor \<Rightarrow> fval tensor \<Rightarrow> fval tensor \<Rightarrow> error + fval tensor" where
  "linear_layer A W b x =
     (if shape x = [] \<or> last (shape x) \<noteq> shape W ! 1 then Inl RuntimeError
      else Inr \<lparr>shape = butlast (shape x) @ [shape W ! 0],
                elem = (\<lambda>idx. fl_affine A
                                (map (\<lambda>k. elem x (butlast idx @ [k])) [0..<shape W ! 1])
                                (map (\<lambda>k. elem W [last idx, k]) [0..<shape W ! 1])
                                (elem b [last idx]))\<rparr>)"

text \<open>\<^verbatim>\<open>math.sqrt\<close> of an integer.\<close>

definition py_sqrt :: "int \<Rightarrow> error + real" where
  "py_sqrt n = (if n < 0 then Inl ValueError else Inr (sqrt (real_of_int n)))"

record TransformerModel =
  pos_encoder :: PositionalEncoding
  transformer_encoder :: "fval tensor \<Rightarrow> bool tensor \<Rightarrow> error + fval tensor"
  encoder :: "fval tensor"
  d_model :: int
  decoder_weight :: "fval tensor"
  decoder_bias :: "fval tensor"

definition TransformerModel_init ::
  "arith \<Rightarrow> int \<Rightarrow> int \<Rightarrow> (fval tensor \<Rightarrow> bool tensor \<Rightarrow> error + fval tensor) \<Rightarrow>
   (nat list \<Rightarrow> fval) \<Rightarrow> (nat list \<Rightarrow> fval) \<Rightarrow> error + TransformerModel" where
  "TransformerModel_init A ntoken dm enc emb_vals dec_vals =
     ebind (PositionalEncoding_init A dm max_len_default) (\<lambda>pos.
     ebind (new_parameter [ntoken, dm] emb_vals) (\<lambda>ew.
     ebind (new_parameter [ntoken, dm] dec_vals) (\<lambda>dw.
     ebind (zeros [ntoken]) (\<lambda>db.
     Inr \<lparr>pos_encoder = pos, transformer_encoder = enc, encoder = ew, d_model = dm,
          decoder_weight = dw, decoder_bias = db\<rparr>))))"

definition TransformerModel_forward ::
  "arith \<Rightarrow> TransformerModel \<Rightarrow> int tensor \<Rightarrow> bool tensor \<Rightarrow>
   (error + fval tensor) \<times> TransformerModel" where
  "TransformerModel_forward A self src src_mask =
     (case ebind (embedding (encoder self) src) (\<lambda>e.
           ebind (py_sqrt (d_model self)) (\<lambda>s. Inr (mul_scalar A e s))) of
        Inl err \<Rightarrow> (Inl err, self)
      | Inr x \<Rightarrow>
          let (r, pos) = PositionalEncoding_forward A (pos_encoder self) x;
              self1 = self\<lparr>pos_encoder := pos\<rparr>
          in (ebind r (\<lambda>x1.
              ebind (transformer_encoder self1 x1 src_mask) (\<lambda>output.
              linear_layer A (decoder_weight self1) (decoder_bias self1) output)), self1))"

text \<open>The example of the notebook: 10000 tokens and an embedding of size 200.\<close>

definition ntokens :: int where
  "ntokens = 10000"

definition emsize :: int where
  "emsize = 200"

section \<open>Scaled dot-product attention\<close>

text \<open>
  Modelled from the spec: \<open>scaled_dot_product_attention\<close> is not defined in the notebook,
  which leaves attention to the framework's encoder layers. The definitions below follow
  section 4.1 of the specification, over the real numbers: \<open>Q\<close> is \<open>(n, d_k)\<close>, \<open>K\<close> is \<open>(m, d_k)\<close>, \<open>V\<close> is
  \<open>(m, d_v)\<close>, the optional mask is \<open>(n, m)\<close> and marks the disallowed pairs;
  \<open>scores = Q K\<^sup>T / sqrt d_k\<close>; a masked score is minus infinity (\<open>None\<close> here);
  \<open>weights\<close> is the row-wise softmax of the scores, computed after subtracting the
  maximum of the row; \<open>output = weights V\<close>. Unequal \<open>d_k\<close> fail with \<open>ShapeMismatch\<close>,
  as does a mask of another shape; \<open>d_k = 0\<close> fails with \<open>InvalidDimension\<close>.
\<close>

definition dot_rows :: "real tensor \<Rightarrow> real tensor \<Rightarrow> nat \<Rightarrow> nat \<Rightarrow> nat \<Rightarrow> real" where
  "dot_rows Q K d_k i j = sum_list (map (\<lambda>k. elem Q [i, k] * elem K [j, k]) [0..<d_k])"

definition masked :: "bool tensor option \<Rightarrow> nat \<Rightarrow> nat \<Rightarrow> bool" where
  "masked msk i j = (case msk of None \<Rightarrow> False | Some t \<Rightarrow> elem t [i, j])"

definition score_row :: "real tensor \<Rightarrow> real tensor \<Rightarrow> bool tensor option \<Rightarrow> nat \<Rightarrow> nat \<Rightarrow> nat \<Rightarrow> real option list" where
  "score_row Q K msk d_k m i =
     map (\<lambda>j. if masked msk i j then None else Some (dot_rows Q K d_k i j / sqrt (real d_k))) [0..<m]"

fun row_max :: "real option list \<Rightarrow> real option" where
  "row_max [] = None"
| "row_max (None # xs) = row_max xs"
| "row_max (Some x # xs) = (case row_max xs of None \<Rightarrow> Some x | Some y \<Rightarrow> Some (max x y))"

definition shifted_exp :: "real option \<Rightarrow> real option \<Rightarrow> real" where
  "shifted_exp mx s =
     (case s of None \<Rightarrow> 0 | Some v \<Rightarrow> exp (v - (case mx of None \<Rightarrow> 0 | Some b \<Rightarrow> b)))"

text \<open>
  A row in which every score is masked has no positive term to normalise by; its weights are
  all 0, the weight that the specification guarantees for a masked entry.
\<close>

definition softmax_row :: "real option list \<Rightarrow> real list" where
  "softmax_row xs =
     (let es = map (shifted_exp (row_max xs)) xs; z = sum_list es
      in map (\<lambda>e. if z = 0 then 0 else e / z) es)"

definition scaled_dot_product_attention ::
  "real tensor \<Rightarrow> real tensor \<Rightarrow> real tensor \<Rightarrow> bool tensor option \<Rightarrow>
   error + (real tensor \<times> real tensor)" where
  "scaled_dot_product_attention Q K V msk =
     (case (shape Q, shape K, shape V) of
        ([n, d_k], [m, d_k'], [m', d_v]) \<Rightarrow>
          if d_k \<noteq> d_k' \<or> m \<noteq> m' then Inl ShapeMismatch
          else if d_k = 0 then Inl InvalidDimension
          else if (case msk of None \<Rightarrow> False | Some t \<Rightarrow> shape t \<noteq> [n, m]) then Inl ShapeMismatch
          else
            let weights = \<lparr>shape = [n, m],
                           elem = (\<lambda>idx. softmax_row (score_row Q K msk d_k m (idx ! 0)) ! (idx ! 1))\<rparr>;
                output = \<lparr>shape = [n, d_v],
                          elem = (\<lambda>idx. sum_list (map (\<lambda>j. elem weights [idx ! 0, j] * elem V [j, idx ! 1])
                                                    [0..<m]))\<rparr>
            in Inr (output, weights)
      | _ \<Rightarrow> Inl ShapeMismatch)"

section \<open>The framework operations on the shapes the constructor meets\<close>

lemma ebind_Inr: "ebind (Inr v) f = f v"
  by (simp add: ebind_def)

lemma ebind_Inl: "ebind (Inl e) f = Inl e"
  by (simp add: ebind_def)

lemma broadcast_col_row: "broadcast_shapes [m, Suc 0] [h] = Some [m, h]"
  by (simp add: broadcast_shapes_def)

lemma zeros_pair:
  "0 \<le> a \<Longrightarrow> 0 \<le> b \<Longrightarrow> storage_ok 4 [nat a, nat b] \<Longrightarrow>
   zeros [a, b] = Inr \<lparr>shape = [nat a, nat b], elem = (\<lambda>idx. Fin 0)\<rparr>"
  by (simp add: zeros_def)

lemma zeros_refused:
  "a < 0 \<or> b < 0 \<or> \<not> storage_ok 4 [nat a, nat b] \<Longrightarrow> zeros [a, b] = Inl RuntimeError"
  by (auto simp add: zeros_def)

lemma arange_len_step1: "0 \<le> n \<Longrightarrow> arange_len 0 n 1 = nat n"
  by (simp add: arange_len_def)

lemma arange_len_step2: "0 \<le> n \<Longrightarrow> arange_len 0 n 2 = (nat n + 1) div 2"
  by (simp add: arange_len_def nat_div_distrib nat_add_distrib)

lemma arange_float_step1:
  "0 \<le> n \<Longrightarrow> storage_ok 4 [nat n] \<Longrightarrow>
   arange_float A 0 n 1 = Inr \<lparr>shape = [nat n], elem = (\<lambda>idx. fl_of_int A (int (idx ! 0)))\<rparr>"
  by (simp add: arange_float_def arange_len_step1)

lemma arange_float_refused:
  "0 \<le> n \<Longrightarrow> \<not> storage_ok 4 [nat n] \<Longrightarrow> arange_float A 0 n 1 = Inl RuntimeError"
  by (simp add: arange_float_def arange_len_step1)

lemma arange_int_step2:
  "0 \<le> n \<Longrightarrow> storage_ok 8 [(nat n + 1) div 2] \<Longrightarrow>
   arange_int 0 n 2 = Inr \<lparr>shape = [(nat n + 1) div 2], elem = (\<lambda>idx. 2 * int (idx ! 0))\<rparr>"
  by (simp add: arange_int_def arange_len_step2)

lemma arange_int_refused:
  "0 \<le> n \<Longrightarrow> \<not> storage_ok 8 [(nat n + 1) div 2] \<Longrightarrow> arange_int 0 n 2 = Inl RuntimeError"
  by (simp add: arange_int_def arange_len_step2)

lemma unsqueeze1_vector:
  "unsqueeze 1 \<lparr>shape = [n], elem = f\<rparr>
     = Inr \<lparr>shape = [n, 1], elem = (\<lambda>idx. f (take 1 idx @ drop 2 idx))\<rparr>"
  by (simp add: unsqueeze_def numeral_2_eq_2)

lemma mul_col_row:
  "shape a = [m, 1] \<Longrightarrow> shape b = [h] \<Longrightarrow>
   mul_t A a b = Inr \<lparr>shape = [m, h],
                      elem = (\<lambda>idx. fl_mul A (elem a (bidx [m, 1] idx)) (elem b (bidx [h] idx)))\<rparr>"
  by (simp add: mul_t_def binop_def broadcast_col_row)

lemma slice_len_0: "slice_len n 0 2 = (n + 1) div 2"
  by (simp add: slice_len_def)

lemma setitem_cols_expand:
  "shape t = [m, n] \<Longrightarrow> shape v = [m, h] \<Longrightarrow> h = slice_len n s k \<or> h = 1 \<Longrightarrow>
   setitem_cols t s k v =
     Inr \<lparr>shape = [m, n],
          elem = (\<lambda>idx. if s \<le> idx ! 1 \<and> (idx ! 1 - s) mod k = 0
                         then elem v (bidx (shape v) [idx ! 0, (idx ! 1 - s) div k])
                         else elem t idx)\<rparr>"
  by (auto simp add: setitem_cols_def expandable_def)

lemma setitem_cols_refused:
  "shape t = [m, n] \<Longrightarrow> shape v = [m, h] \<Longrightarrow> h \<noteq> slice_len n s k \<Longrightarrow> h \<noteq> 1 \<Longrightarrow>
   setitem_cols t s k v = Inl RuntimeError"
  by (auto simp add: setitem_cols_def expandable_def)

lemma unsqueeze0: "unsqueeze 0 t = Inr \<lparr>shape = 1 # shape t, elem = (\<lambda>idx. elem t (drop 1 idx))\<rparr>"
  by (simp add: unsqueeze_def)

lemma transpose01:
  "shape t = [a, b, c] \<Longrightarrow>
   transpose_t 0 1 t = Inr \<lparr>shape = [b, a, c], elem = (\<lambda>idx. elem t (idx[0 := idx ! 1, 1 := idx ! 0]))\<rparr>"
  by (simp add: transpose_t_def)

section \<open>The constructor of the positional encoding, case by case\<close>

text \<open>The factor of the dimension index \<open>k\<close>, as the constructor computes it.\<close>

lemma div_term_positive:
  assumes "0 < d" and "storage_ok 8 [(nat d + 1) div 2]"
  shows "div_term A d =
     Inr \<lparr>shape = [(nat d + 1) div 2],
          elem = (\<lambda>idx. fl_exp A (fl_mul A (fl_of_int A (2 * int (idx ! 0)))
                                        (fl_of_real A (- ln 10000 / real_of_int d))))\<rparr>"
proof -
  have a: "arange_int 0 d 2 = Inr \<lparr>shape = [(nat d + 1) div 2], elem = (\<lambda>idx. 2 * int (idx ! 0))\<rparr>"
    using assms by (simp add: arange_int_step2)
  have q: "py_div (- ln 10000) d = Inr (- ln 10000 / real_of_int d)"
    using assms by (simp add: py_div_def)
  have "div_term A d =
      Inr (map_t (fl_exp A) (mul_scalar A (to_float A \<lparr>shape = [(nat d + 1) div 2],
             elem = (\<lambda>idx. 2 * int (idx ! 0))\<rparr>) (- ln 10000 / real_of_int d)))"
    by (simp only: div_term_def a q ebind_Inr)
  then show ?thesis
    by (simp add: map_t_def mul_scalar_def to_float_def)
qed

lemma div_term_zero: "div_term A 0 = Inl ZeroDivisionError"
  by (simp add: div_term_def arange_int_def arange_len_def storage_ok_def py_div_def ebind_def)

lemma div_term_refused:
  "0 \<le> d \<Longrightarrow> \<not> storage_ok 8 [(nat d + 1) div 2] \<Longrightarrow> div_term A d = Inl RuntimeError"
  by (simp add: div_term_def arange_int_refused ebind_Inl)

lemma init_refused_table:
  "max_len < 0 \<or> d < 0 \<or> \<not> storage_ok 4 [nat max_len, nat d] \<Longrightarrow>
   PositionalEncoding_init A d max_len = Inl RuntimeError"
  by (simp only: PositionalEncoding_init_def zeros_refused ebind_Inl)

lemma init_refused_positions:
  assumes "0 \<le> m" and "0 \<le> d" and "storage_ok 4 [nat m, nat d]" and "\<not> storage_ok 4 [nat m]"
  shows "PositionalEncoding_init A d m = Inl RuntimeError"
proof -
  have z: "zeros [m, d] = Inr \<lparr>shape = [nat m, nat d], elem = (\<lambda>idx. Fin 0)\<rparr>"
    using assms by (simp add: zeros_pair)
  have r: "arange_float A 0 m 1 = Inl RuntimeError"
    using assms by (simp add: arange_float_refused)
  show ?thesis
    by (simp only: PositionalEncoding_init_def z r ebind_Inr ebind_Inl)
qed

lemma init_div_term_fails:
  assumes "0 \<le> m" and "0 \<le> d" and "storage_ok 4 [nat m, nat d]" and "storage_ok 4 [nat m]"
    and "div_term A d = Inl e"
  shows "PositionalEncoding_init A d m = Inl e"
proof -
  have z: "zeros [m, d] = Inr \<lparr>shape = [nat m, nat d], elem = (\<lambda>idx. Fin 0)\<rparr>"
    using assms by (simp add: zeros_pair)
  have r: "arange_float A 0 m 1 = Inr \<lparr>shape = [nat m], elem = (\<lambda>idx. fl_of_int A (int (idx ! 0)))\<rparr>"
    using assms by (simp add: arange_float_step1)
  show ?thesis
    by (simp only: PositionalEncoding_init_def z r unsqueeze1_vector assms(5) ebind_Inr ebind_Inl)
qed


lemma init_steps:
  fixes A :: arith
  assumes m: "0 \<le> m" and d: "0 < d" and fit: "init_sizes_ok d m"
  defines "h \<equiv> (nat d + 1) div 2"
  defines "ang \<equiv> \<lparr>shape = [nat m, h],
      elem = (\<lambda>idx. fl_mul A
                 (elem \<lparr>shape = [nat m, 1],
                        elem = (\<lambda>idx. fl_of_int A (int ((take 1 idx @ drop 2 idx) ! 0)))\<rparr> (bidx [nat m, 1] idx))
                 (elem \<lparr>shape = [h],
                        elem = (\<lambda>idx. fl_exp A (fl_mul A (fl_of_int A (2 * int (idx ! 0)))
                                        (fl_of_real A (- ln 10000 / real_of_int d))))\<rparr> (bidx [h] idx)))\<rparr>"
  defines "pe1 \<equiv> \<lparr>shape = [nat m, nat d],
          elem = (\<lambda>idx. if 0 \<le> idx ! 1 \<and> (idx ! 1 - 0) mod 2 = 0
                         then elem (map_t (fl_sin A) ang) (bidx (shape (map_t (fl_sin A) ang)) [idx ! 0, (idx ! 1 - 0) div 2])
                         else elem \<lparr>shape = [nat m, nat d], elem = (\<lambda>idx. Fin 0)\<rparr> idx)\<rparr>"
  shows "PositionalEncoding_init A d m =
     ebind (setitem_cols pe1 1 2 (map_t (fl_cos A) ang)) (\<lambda>pe2.
     ebind (unsqueeze 0 pe2) (\<lambda>pe3.
     ebind (transpose_t 0 1 pe3) (\<lambda>pe4.
     Inr \<lparr>pe = pe4\<rparr>)))"
proof -
  from fit have f1: "storage_ok 4 [nat m, nat d]" and f2: "storage_ok 4 [nat m]"
    and f3: "storage_ok 8 [(nat d + 1) div 2]"
    by (simp_all add: init_sizes_ok_def)
  have z: "zeros [m, d] = Inr \<lparr>shape = [nat m, nat d], elem = (\<lambda>idx. Fin 0)\<rparr>"
    using m d f1 by (simp add: zeros_pair)
  have r: "arange_float A 0 m 1 = Inr \<lparr>shape = [nat m], elem = (\<lambda>idx. fl_of_int A (int (idx ! 0)))\<rparr>"
    using m f2 by (rule arange_float_step1)
  have dt: "div_term A d = Inr \<lparr>shape = [h],
                        elem = (\<lambda>idx. fl_exp A (fl_mul A (fl_of_int A (2 * int (idx ! 0)))
                                        (fl_of_real A (- ln 10000 / real_of_int d))))\<rparr>"
    unfolding h_def using d f3 by (rule div_term_positive)
  have ml: "mul_t A \<lparr>shape = [nat m, 1],
                    elem = (\<lambda>idx. fl_of_int A (int ((take 1 idx @ drop 2 idx) ! 0)))\<rparr>
              \<lparr>shape = [h],
                        elem = (\<lambda>idx. fl_exp A (fl_mul A (fl_of_int A (2 * int (idx ! 0)))
                                        (fl_of_real A (- ln 10000 / real_of_int d))))\<rparr> = Inr ang"
    unfolding ang_def by (rule mul_col_row) simp_all
  have s1: "setitem_cols \<lparr>shape = [nat m, nat d], elem = (\<lambda>idx. Fin 0)\<rparr> 0 2 (map_t (fl_sin A) ang) = Inr pe1"
    unfolding pe1_def
    by (rule setitem_cols_expand [where h = h]) (simp_all add: map_t_def ang_def slice_len_0 h_def)
  show ?thesis
    by (simp only: PositionalEncoding_init_def z r unsqueeze1_vector dt ml s1 ebind_Inr)
qed

lemma init_odd:
  assumes m: "0 \<le> m" and d: "1 < d" and od: "odd d"
  shows "PositionalEncoding_init A d m = Inl RuntimeError"
proof (cases "init_sizes_ok d m")
  case False
  then consider "\<not> storage_ok 4 [nat m, nat d]"
    | "storage_ok 4 [nat m, nat d]" "\<not> storage_ok 4 [nat m]"
    | "storage_ok 4 [nat m, nat d]" "storage_ok 4 [nat m]" "\<not> storage_ok 8 [(nat d + 1) div 2]"
    by (auto simp add: init_sizes_ok_def)
  then show ?thesis
  proof cases
    case 1
    then show ?thesis by (simp add: init_refused_table)
  next
    case 2
    with m d show ?thesis by (intro init_refused_positions) auto
  next
    case 3
    with m d show ?thesis
      by (intro init_div_term_fails div_term_refused) auto
  qed
next
  case True
  from od d have "odd (nat d)" by (simp add: even_nat_iff)
  then obtain b where b: "nat d = 2 * b + 1" by (auto elim: oddE)
  with d have b0: "b \<noteq> 0" by (cases b) auto
  have h1: "(nat d + 1) div 2 \<noteq> slice_len (nat d) 1 2"
    using b by (simp add: slice_len_def)
  have h2: "(nat d + 1) div 2 \<noteq> 1"
    using b b0 by simp
  have "PositionalEncoding_init A d m =
     ebind (Inl RuntimeError) (\<lambda>pe2.
     ebind (unsqueeze 0 pe2) (\<lambda>pe3.
     ebind (transpose_t 0 1 pe3) (\<lambda>pe4.
     Inr \<lparr>pe = pe4\<rparr>)))"
    using m d True
    by (subst init_steps, simp, simp, simp, subst setitem_cols_refused [where h = "(nat d + 1) div 2" and m = "nat m" and n = "nat d"])
       (use h1 h2 in \<open>simp_all add: map_t_def\<close>)
  then show ?thesis by (simp only: ebind_Inl)
qed

text \<open>The entries of the table, as the constructor computes them.\<close>

lemma init_succeeds:
  assumes m: "0 \<le> m" and d: "0 < d" and ev: "even d \<or> d = 1" and fit: "init_sizes_ok d m"
  shows "\<exists>P. PositionalEncoding_init A d m = Inr P \<and> shape (pe P) = [nat m, 1, nat d] \<and>
           (\<forall>p k. p < nat m \<longrightarrow> 2 * k < nat d \<longrightarrow>
              elem (pe P) [p, 0, 2 * k] =
                fl_sin A (fl_mul A (fl_of_int A (int p))
                   (fl_exp A (fl_mul A (fl_of_int A (2 * int k))
                                       (fl_of_real A (- ln 10000 / real_of_int d)))))) \<and>
           (\<forall>p k. p < nat m \<longrightarrow> 2 * k + 1 < nat d \<longrightarrow>
              elem (pe P) [p, 0, 2 * k + 1] =
                fl_cos A (fl_mul A (fl_of_int A (int p))
                   (fl_exp A (fl_mul A (fl_of_int A (2 * int k))
                                       (fl_of_real A (- ln 10000 / real_of_int d))))))"
proof -
  define h where "h = (nat d + 1) div 2"
  define ang where "ang = \<lparr>shape = [nat m, h],
      elem = (\<lambda>idx. fl_mul A
                 (elem \<lparr>shape = [nat m, 1],
                        elem = (\<lambda>idx. fl_of_int A (int ((take 1 idx @ drop 2 idx) ! 0)))\<rparr> (bidx [nat m, 1] idx))
                 (elem \<lparr>shape = [h],
                        elem = (\<lambda>idx. fl_exp A (fl_mul A (fl_of_int A (2 * int (idx ! 0)))
                                        (fl_of_real A (- ln 10000 / real_of_int d))))\<rparr> (bidx [h] idx)))\<rparr>"
  define pe1 where "pe1 = \<lparr>shape = [nat m, nat d],
          elem = (\<lambda>idx. if 0 \<le> idx ! 1 \<and> (idx ! 1 - 0) mod 2 = 0
                         then elem (map_t (fl_sin A) ang) (bidx (shape (map_t (fl_sin A) ang)) [idx ! 0, (idx ! 1 - 0) div 2])
                         else elem \<lparr>shape = [nat m, nat d], elem = (\<lambda>idx. Fin 0)\<rparr> idx)\<rparr>"
  define pe2 where "pe2 = \<lparr>shape = [nat m, nat d],
          elem = (\<lambda>idx. if 1 \<le> idx ! 1 \<and> (idx ! 1 - 1) mod 2 = 0
                         then elem (map_t (fl_cos A) ang) (bidx (shape (map_t (fl_cos A) ang)) [idx ! 0, (idx ! 1 - 1) div 2])
                         else elem pe1 idx)\<rparr>"
  define pe3 where "pe3 = \<lparr>shape = 1 # shape pe2, elem = (\<lambda>idx. elem pe2 (drop 1 idx))\<rparr>"
  define pe4 where "pe4 = \<lparr>shape = [nat m, 1, nat d], elem = (\<lambda>idx. elem pe3 (idx[0 := idx ! 1, 1 := idx ! 0]))\<rparr>"
  have steps: "PositionalEncoding_init A d m =
     ebind (setitem_cols pe1 1 2 (map_t (fl_cos A) ang)) (\<lambda>pe2.
     ebind (unsqueeze 0 pe2) (\<lambda>pe3.
     ebind (transpose_t 0 1 pe3) (\<lambda>pe4.
     Inr \<lparr>pe = pe4\<rparr>)))"
    unfolding pe1_def ang_def h_def using m d fit by (rule init_steps)
  have hh: "h = slice_len (nat d) 1 2 \<or> h = 1"
  proof (cases "d = 1")
    case True
    then show ?thesis by (simp add: h_def)
  next
    case False
    with ev d have "even (nat d)" by (simp add: even_nat_iff)
    then obtain b where "nat d = 2 * b" by (auto elim: evenE)
    then show ?thesis by (cases b) (simp_all add: h_def slice_len_def)
  qed
  have s2: "setitem_cols pe1 1 2 (map_t (fl_cos A) ang) = Inr pe2"
    unfolding pe2_def
    by (rule setitem_cols_expand [where h = h]) (use hh in \<open>simp_all add: pe1_def map_t_def ang_def\<close>)
  have u0: "unsqueeze 0 pe2 = Inr pe3"
    unfolding pe3_def by (rule unsqueeze0)
  have tr: "transpose_t 0 1 pe3 = Inr pe4"
    unfolding pe4_def by (rule transpose01) (simp add: pe3_def pe2_def)
  have res: "PositionalEncoding_init A d m = Inr \<lparr>pe = pe4\<rparr>"
    by (simp only: steps s2 u0 tr ebind_Inr)
  have e4: "elem pe4 [p, 0, j] = elem pe2 [p, j]" for p j
    by (simp add: pe4_def pe3_def)
  have kh: "k < h" if "2 * k < nat d" for k
    using that unfolding h_def by linarith
  have angv: "elem ang (bidx [nat m, h] [p, k]) =
      fl_mul A (fl_of_int A (int p))
         (fl_exp A (fl_mul A (fl_of_int A (2 * int k)) (fl_of_real A (- ln 10000 / real_of_int d))))"
    if "p < nat m" "k < h" for p k
    using that by (auto simp add: ang_def bidx_def)
  have sinv: "elem pe4 [p, 0, 2 * k] =
      fl_sin A (fl_mul A (fl_of_int A (int p))
         (fl_exp A (fl_mul A (fl_of_int A (2 * int k)) (fl_of_real A (- ln 10000 / real_of_int d)))))"
    if "p < nat m" "2 * k < nat d" for p k
  proof -
    have nev: "\<not> (Suc 0 \<le> k \<and> (2 * k - Suc 0) mod 2 = 0)"
      by presburger
    have "elem pe2 [p, 2 * k] = elem pe1 [p, 2 * k]"
      by (simp add: pe2_def nev)
    also have "\<dots> = fl_sin A (elem ang (bidx [nat m, h] [p, k]))"
      by (simp add: pe1_def map_t_def ang_def)
    finally show ?thesis
      using that kh [of k] by (simp only: e4 angv)
  qed
  have cosv: "elem pe4 [p, 0, 2 * k + 1] =
      fl_cos A (fl_mul A (fl_of_int A (int p))
         (fl_exp A (fl_mul A (fl_of_int A (2 * int k)) (fl_of_real A (- ln 10000 / real_of_int d)))))"
    if "p < nat m" "2 * k + 1 < nat d" for p k
  proof -
    have "elem pe2 [p, 2 * k + 1] = fl_cos A (elem ang (bidx [nat m, h] [p, k]))"
      by (simp add: pe2_def map_t_def ang_def)
    then show ?thesis
      using that kh [of k] by (simp only: e4 angv)
  qed
  show ?thesis
    unfolding res using sinv cosv by (simp add: pe4_def)
qed

lemma init_Inr_cases:
  assumes "PositionalEncoding_init A d m = Inr P"
  shows "0 \<le> m \<and> 0 < d \<and> (even d \<or> d = 1) \<and> init_sizes_ok d m"
proof -
  have a: "\<not> (m < 0 \<or> d < 0 \<or> \<not> storage_ok 4 [nat m, nat d])"
    using assms init_refused_table [of m d A] by auto
  have b: "storage_ok 4 [nat m]"
    using assms a init_refused_positions [of m d A] by auto
  have c: "storage_ok 8 [(nat d + 1) div 2]"
  proof (rule ccontr)
    assume "\<not> storage_ok 8 [(nat d + 1) div 2]"
    with a have "div_term A d = Inl RuntimeError" by (intro div_term_refused) auto
    with a b have "PositionalEncoding_init A d m = Inl RuntimeError"
      by (intro init_div_term_fails) auto
    with assms show False by simp
  qed
  have e: "d \<noteq> 0"
  proof
    assume "d = 0"
    with a b have "PositionalEncoding_init A d m = Inl ZeroDivisionError"
      by (intro init_div_term_fails) (auto simp add: div_term_zero)
    with assms show False by simp
  qed
  have f: "even d \<or> d = 1"
  proof (rule ccontr)
    assume "\<not> (even d \<or> d = 1)"
    with a e have "0 \<le> m" "1 < d" "odd d" by auto
    then have "PositionalEncoding_init A d m = Inl RuntimeError" by (rule init_odd)
    with assms show False by simp
  qed
  from a b c e f show ?thesis by (auto simp add: init_sizes_ok_def)
qed

lemma init_shape:
  assumes "PositionalEncoding_init A d m = Inr P"
  shows "shape (pe P) = [nat m, 1, nat d]"
proof -
  from init_Inr_cases [OF assms] have "0 \<le> m" "0 < d" "even d \<or> d = 1" "init_sizes_ok d m" by auto
  from init_succeeds [OF this, of A] assms show ?thesis by auto
qed

text \<open>The sizes fit when the table and the vector of the even indices do.\<close>

lemma init_sizes_ok_iff:
  assumes "0 \<le> m" and "0 < d"
  shows "init_sizes_ok d m \<longleftrightarrow>
           4 * m * d \<le> 2 ^ 63 - 1 \<and> 8 * ((d + 1) div 2) \<le> 2 ^ 63 - 1"
proof -
  obtain a b where ab: "m = int a" "d = int b"
    using assms by (metis nat_0_le less_imp_le)
  have b0: "0 < b" using assms ab by simp
  have "init_sizes_ok d m \<longleftrightarrow>
      a \<le> 2 ^ 63 - 1 \<and> b \<le> 2 ^ 63 - 1 \<and> 4 * (a * b) \<le> 2 ^ 63 - 1 \<and> 4 * a \<le> 2 ^ 63 - 1 \<and>
      (b + 1) div 2 \<le> 2 ^ 63 - 1 \<and> 8 * ((b + 1) div 2) \<le> 2 ^ 63 - 1"
    by (auto simp add: init_sizes_ok_def storage_ok_def storage_max_def ab)
  also have "\<dots> \<longleftrightarrow> 4 * (a * b) \<le> 2 ^ 63 - 1 \<and> 8 * ((b + 1) div 2) \<le> (2 ^ 63 - 1 :: nat)"
  proof -
    have "a \<le> a * b" using b0 by simp
    then have "4 * a \<le> 4 * (a * b)" "a \<le> 4 * (a * b)" by linarith+
    moreover have "b \<le> 8 * ((b + 1) div 2)" "(b + 1) div 2 \<le> 8 * ((b + 1) div 2)" by linarith+
    ultimately show ?thesis by (metis (no_types, lifting) le_trans)
  qed
  also have "\<dots> \<longleftrightarrow> 4 * m * d \<le> 2 ^ 63 - 1 \<and> 8 * ((d + 1) div 2) \<le> 2 ^ 63 - 1"
  proof -
    have "(4 * (a * b) \<le> (2 ^ 63 - 1 :: nat)) = (int (4 * (a * b)) \<le> int (2 ^ 63 - 1))"
      by (simp only: of_nat_le_iff)
    moreover have "(8 * ((b + 1) div 2) \<le> (2 ^ 63 - 1 :: nat)) = (int (8 * ((b + 1) div 2)) \<le> int (2 ^ 63 - 1))"
      by (simp only: of_nat_le_iff)
    moreover have "int (2 ^ 63 - 1) = 2 ^ 63 - 1" by simp
    moreover have "int ((b + 1) div 2) = (int b + 1) div 2" by (simp add: zdiv_int)
    ultimately show ?thesis by (simp add: ab mult.assoc)
  qed
  finally show ?thesis .
qed

section \<open>Accuracy of the factor and of the angle\<close>

lemma ln_10000_le_10: "ln (10000 :: real) \<le> 10"
proof -
  have "(13 / 8 :: real) \<le> exp (1 / 2)"
    using exp_lower_Taylor_quadratic [of "1 / 2 :: real"] by (simp add: power2_eq_square)
  then have "(13 / 8 :: real) ^ 20 \<le> exp (1 / 2) ^ 20"
    by (intro power_mono) simp_all
  moreover have "exp (1 / 2 :: real) ^ 20 = exp 10"
    by (simp add: exp_of_nat_mult [symmetric])
  moreover have "(10000 :: real) \<le> (13 / 8) ^ 20"
  proof -
    have "(13 / 8 :: real) ^ 20 = 13 ^ 20 / 8 ^ 20"
      by (rule power_divide)
    also have "\<dots> \<ge> 10000"
      by (simp add: field_simps)
    finally show ?thesis .
  qed
  ultimately have "(10000 :: real) \<le> exp 10"
    by linarith
  then have "ln (10000 :: real) \<le> ln (exp 10)"
    by (subst ln_le_cancel_iff) simp_all
  then show ?thesis by simp
qed

lemma ln_10000_ge_1: "1 \<le> ln (10000 :: real)"
proof -
  have "exp (1 :: real) \<le> 3" by (rule exp_le)
  then have "exp (1 :: real) \<le> 10000" by simp
  then have "ln (exp (1 :: real)) \<le> ln 10000"
    by (subst ln_le_cancel_iff) simp_all
  then show ?thesis by simp
qed

lemma exp_minus_one_bound:
  fixes y :: real
  assumes "\<bar>y\<bar> \<le> 1"
  shows "\<bar>exp y - 1\<bar> \<le> 2 * \<bar>y\<bar>"
proof (cases "0 \<le> y")
  case True
  with assms have "exp y \<le> 1 + y + y\<^sup>2"
    by (intro exp_bound) simp_all
  moreover have "y\<^sup>2 \<le> y"
    using True assms by (simp add: power2_eq_square mult_left_le)
  moreover have "1 \<le> exp y" using True by simp
  ultimately show ?thesis using True by simp
next
  case False
  have "1 + y \<le> exp y" by (rule exp_ge_add_one_self)
  moreover have "exp y \<le> 1" using False by simp
  ultimately show ?thesis using False by linarith
qed

lemma two_errors:
  fixes a b s t :: real
  assumes "\<bar>a\<bar> \<le> s" and "\<bar>b\<bar> \<le> t" and "0 \<le> s" and "0 \<le> t"
  shows "\<bar>(1 + a) * (1 + b) - 1\<bar> \<le> s + t + s * t"
proof -
  have "\<bar>a * b\<bar> = \<bar>a\<bar> * \<bar>b\<bar>"
    by (rule abs_mult)
  also have "\<dots> \<le> s * t"
    using assms by (intro mult_mono) simp_all
  finally have "\<bar>a * b\<bar> \<le> s * t" .
  moreover have "(1 + a) * (1 + b) - 1 = a + b + a * b"
    by (simp add: algebra_simps)
  ultimately show ?thesis
    using assms(1,2) by linarith
qed

lemma three_errors:
  fixes u :: real
  assumes e: "\<bar>e1\<bar> \<le> u" "\<bar>e2\<bar> \<le> u" "\<bar>e3\<bar> \<le> u" and u: "u \<le> 1 / 128"
  shows "\<bar>(1 + e1) * (1 + e2) * (1 + e3) - 1\<bar> \<le> 5 * u"
proof -
  have u0: "0 \<le> u" using e(1) by linarith
  have uu: "u * u \<le> u / 128"
    using mult_left_mono [OF u u0] by simp
  define a where "a = (1 + e1) * (1 + e2) - 1"
  have a: "\<bar>a\<bar> \<le> 3 * u"
    using two_errors [OF e(1,2) u0 u0] uu u0 unfolding a_def by linarith
  have "\<bar>(1 + a) * (1 + e3) - 1\<bar> \<le> 3 * u + u + 3 * u * u"
    using two_errors [OF a e(3)] u0 by simp
  then have "\<bar>(1 + a) * (1 + e3) - 1\<bar> \<le> 3 * u + u + 3 * (u * u)"
    by (simp only: mult.assoc)
  moreover have "(1 + a) * (1 + e3) = (1 + e1) * (1 + e2) * (1 + e3)"
    by (simp add: a_def)
  ultimately have "\<bar>(1 + e1) * (1 + e2) * (1 + e3) - 1\<bar> \<le> 3 * u + u + 3 * (u * u)"
    by simp
  with uu u0 show ?thesis by linarith
qed

lemma factor_error:
  fixes u :: real
  assumes y: "\<bar>y\<bar> \<le> 50 * u" and e: "\<bar>e\<bar> \<le> u" and u: "u \<le> 1 / 128"
  shows "\<bar>exp y * (1 + e) - 1\<bar> \<le> 102 * u"
proof -
  have u0: "0 \<le> u" using e by linarith
  have uu: "u * u \<le> u / 128"
    using mult_left_mono [OF u u0] by simp
  have "\<bar>y\<bar> \<le> 1" using y u by linarith
  from exp_minus_one_bound [OF this] y have z: "\<bar>exp y - 1\<bar> \<le> 100 * u"
    by linarith
  have "\<bar>(1 + (exp y - 1)) * (1 + e) - 1\<bar> \<le> 100 * u + u + 100 * u * u"
    using two_errors [OF z e] u0 by simp
  then have "\<bar>exp y * (1 + e) - 1\<bar> \<le> 100 * u + u + 100 * (u * u)"
    by (simp only: mult.assoc) simp
  with uu u0 show ?thesis by linarith
qed


lemma factor_accurate:
  assumes acc: "accurate A u" and u: "u \<le> 1 / 128" and d: "0 < d" "d \<le> 2 ^ 63"
    and i: "2 * int i < d"
  shows "\<exists>f. fl_exp A (fl_mul A (fl_of_int A (2 * int i))
                (fl_of_real A (- ln 10000 / real_of_int d))) = Fin f \<and>
             \<bar>f - direct_power d i\<bar> \<le> 102 * u * direct_power d i"
proof -
  define L where "L = ln (10000 :: real)"
  have L: "1 \<le> L" "L \<le> 10"
    using ln_10000_ge_1 ln_10000_le_10 by (simp_all add: L_def)
  define x where "x = - L / real_of_int d"
  define n where "n = real_of_int (2 * int i)"
  define E where "E = n * x"
  have rd: "1 \<le> real_of_int d" "real_of_int d \<le> 2 ^ 63"
    using d by simp_all
  have n0: "0 \<le> n" "n < real_of_int d"
    using i by (simp_all add: n_def)
  have xneg: "x < 0"
    using L rd by (simp add: x_def field_simps)
  have xlow: "- 10 \<le> x"
  proof -
    have "L / real_of_int d \<le> L / 1"
      using L rd by (intro divide_left_mono) simp_all
    with L show ?thesis by (simp add: x_def)
  qed
  have xup: "x \<le> - (1 / 2 ^ 63)"
  proof -
    have "1 / 2 ^ 63 \<le> 1 / real_of_int d"
      using rd by (intro divide_left_mono) simp_all
    also have "\<dots> \<le> L / real_of_int d"
      using L rd by (intro divide_right_mono) simp_all
    finally show ?thesis by (simp add: x_def)
  qed
  have Elow: "- 10 \<le> E" and Eup: "E \<le> 0"
  proof -
    have "n * (L / real_of_int d) \<le> real_of_int d * (L / real_of_int d)"
      using n0 L rd by (intro mult_right_mono) simp_all
    also have "\<dots> = L" using rd by simp
    finally have "n * (L / real_of_int d) \<le> 10" using L by simp
    then show "- 10 \<le> E" by (simp add: E_def x_def)
    show "E \<le> 0" using n0 xneg by (simp add: E_def mult_nonneg_nonpos)
  qed
  from acc have "\<exists>e. \<bar>e\<bar> \<le> u \<and> fl_of_int A 0 = Fin (real_of_int 0 * (1 + e))"
    unfolding accurate_def by (metis order_refl zero_le_numeral zero_le_power)
  then have u0: "0 \<le> u" by auto
  have i63: "0 \<le> 2 * int i \<and> 2 * int i \<le> 2 ^ 63"
    using i d by simp
  with acc obtain e1 where e1: "\<bar>e1\<bar> \<le> u" "fl_of_int A (2 * int i) = Fin (n * (1 + e1))"
    unfolding accurate_def n_def by blast
  have "- 10000 \<le> x \<and> x \<le> - (1 / 2 ^ 100)"
  proof -
    have "(1 / 2 ^ 100 :: real) \<le> 1 / 2 ^ 63" by simp
    with xlow xup show ?thesis by linarith
  qed
  with acc obtain e2 where e2: "\<bar>e2\<bar> \<le> u" "fl_of_real A x = Fin (x * (1 + e2))"
    unfolding accurate_def by blast
  define a where "a = n * (1 + e1)"
  define b where "b = x * (1 + e2)"
  have g1: "1 / 2 \<le> 1 + e1" "1 + e1 \<le> 2" and g2: "1 / 2 \<le> 1 + e2" "1 + e2 \<le> 2"
    using e1(1) e2(1) u by simp_all
  have ab: "a * b = E * ((1 + e1) * (1 + e2))"
    by (simp add: a_def b_def E_def)
  have g12: "1 / 4 \<le> (1 + e1) * (1 + e2)" "(1 + e1) * (1 + e2) \<le> 4"
  proof -
    have "(1 / 2) * (1 / 2) \<le> (1 + e1) * (1 + e2)"
      using g1 g2 by (intro mult_mono) simp_all
    then show "1 / 4 \<le> (1 + e1) * (1 + e2)" by simp
    have "(1 + e1) * (1 + e2) \<le> 2 * 2"
      using g1 g2 by (intro mult_mono) simp_all
    then show "(1 + e1) * (1 + e2) \<le> 4" by simp
  qed
  have range: "a * b = 0 \<or> 1 / 2 ^ 100 \<le> \<bar>a * b\<bar> \<and> \<bar>a * b\<bar> \<le> 2 ^ 80"
  proof (cases "i = 0")
    case True
    then show ?thesis by (simp add: a_def n_def)
  next
    case False
    then have n2: "2 \<le> n" by (simp add: n_def)
    have c0: "0 \<le> (1 + e1) * (1 + e2)"
      using g12(1) by linarith
    have "\<bar>a * b\<bar> = (- E) * ((1 + e1) * (1 + e2))"
    proof -
      have "\<bar>E * ((1 + e1) * (1 + e2))\<bar> = \<bar>E\<bar> * \<bar>(1 + e1) * (1 + e2)\<bar>"
        by (rule abs_mult)
      then show ?thesis
        by (simp only: ab abs_of_nonpos [OF Eup] abs_of_nonneg [OF c0])
    qed
    moreover have "(- E) * ((1 + e1) * (1 + e2)) \<le> 10 * 4"
      using Elow Eup g12 by (intro mult_mono) simp_all
    moreover have "2 * (1 / 2 ^ 63) * (1 / 4) \<le> (- E) * ((1 + e1) * (1 + e2))"
    proof -
      have "2 * (1 / 2 ^ 63) \<le> n * (- x)"
        using n2 xup by (intro mult_mono) simp_all
      then have "2 * (1 / 2 ^ 63) \<le> - E" by (simp add: E_def)
      then show ?thesis
        using g12 Eup by (intro mult_mono) simp_all
    qed
    moreover have "(1 / 2 ^ 100 :: real) \<le> 2 * (1 / 2 ^ 63) * (1 / 4)" by simp
    moreover have "(10 * 4 :: real) \<le> 2 ^ 80" by simp
    ultimately show ?thesis by linarith
  qed
  with acc obtain e3 where e3: "\<bar>e3\<bar> \<le> u" "fl_mul A (Fin a) (Fin b) = Fin (a * b * (1 + e3))"
    unfolding accurate_def by blast
  define h where "h = (1 + e1) * (1 + e2) * (1 + e3) - 1"
  have h: "\<bar>h\<bar> \<le> 5 * u"
    unfolding h_def using e1(1) e2(1) e3(1) u by (rule three_errors)
  define y where "y = E * h"
  have m: "a * b * (1 + e3) = E + y"
    by (simp add: ab y_def h_def algebra_simps)
  have y: "\<bar>y\<bar> \<le> 50 * u"
  proof -
    have "\<bar>y\<bar> = \<bar>E\<bar> * \<bar>h\<bar>" by (simp add: y_def abs_mult)
    also have "\<dots> \<le> 10 * (5 * u)"
      using Elow Eup h u0 by (intro mult_mono) simp_all
    finally show ?thesis by simp
  qed
  have "- 16 \<le> E + y \<and> E + y \<le> 0"
  proof -
    have "\<bar>h\<bar> \<le> 1 / 2" using h u by linarith
    then have "0 \<le> 1 + h" "1 + h \<le> 3 / 2" by linarith+
    moreover have "E + y = E * (1 + h)" by (simp add: y_def algebra_simps)
    moreover have "E * (1 + h) \<le> 0"
      using Eup \<open>0 \<le> 1 + h\<close> by (simp add: mult_nonpos_nonneg)
    moreover have "(- E) * (1 + h) \<le> 10 * (3 / 2)"
      using Elow Eup \<open>0 \<le> 1 + h\<close> \<open>1 + h \<le> 3 / 2\<close> by (intro mult_mono) simp_all
    ultimately show ?thesis by simp
  qed
  with acc obtain e4 where e4: "\<bar>e4\<bar> \<le> u" "fl_exp A (Fin (E + y)) = Fin (exp (E + y) * (1 + e4))"
    unfolding accurate_def by blast
  have P: "direct_power d i = exp E"
    by (simp add: direct_power_def powr_def E_def x_def n_def L_def)
  have val: "fl_exp A (fl_mul A (fl_of_int A (2 * int i))
                (fl_of_real A (- ln 10000 / real_of_int d))) = Fin (exp (E + y) * (1 + e4))"
  proof -
    have xe: "- ln 10000 / real_of_int d = x"
      by (simp add: x_def L_def)
    have "fl_mul A (fl_of_int A (2 * int i)) (fl_of_real A x) = Fin (E + y)"
      by (simp only: e1(2) e2(2) a_def [symmetric] b_def [symmetric] e3(2) m)
    then show ?thesis
      by (simp only: xe e4(2))
  qed
  have "exp (E + y) * (1 + e4) - exp E = exp E * (exp y * (1 + e4) - 1)"
    by (simp add: exp_add algebra_simps)
  then have "\<bar>exp (E + y) * (1 + e4) - exp E\<bar> = exp E * \<bar>exp y * (1 + e4) - 1\<bar>"
    by (simp add: abs_mult)
  also have "\<dots> \<le> exp E * (102 * u)"
    using factor_error [OF y e4(1) u] by (intro mult_left_mono) simp_all
  finally have "\<bar>exp (E + y) * (1 + e4) - direct_power d i\<bar> \<le> 102 * u * direct_power d i"
    by (simp add: P mult.commute)
  with val show ?thesis by blast
qed


lemma direct_power_range:
  assumes d: "0 < d" and i: "2 * int i < d"
  shows "1 / 2 ^ 16 \<le> direct_power d i \<and> direct_power d i \<le> 1"
proof -
  define t where "t = real (2 * i) / real_of_int d"
  have rd: "0 < real_of_int d" using d by simp
  have "real (2 * i) < real_of_int d"
    using i by (metis of_int_less_iff of_int_of_nat_eq of_nat_mult of_nat_numeral)
  then have t: "0 \<le> t" "t \<le> 1"
    using rd by (simp_all add: t_def)
  have "(10000 :: real) powr (- 1) \<le> 10000 powr (- t)"
    using t by (intro powr_mono) simp_all
  moreover have "(10000 :: real) powr (- 1) = 1 / 10000 powr 1"
    by (rule powr_minus_divide)
  moreover have "(10000 :: real) powr (- t) \<le> 10000 powr 0"
    using t by (intro powr_mono) simp_all
  moreover have "(1 / 2 ^ 16 :: real) \<le> 1 / 10000" by simp
  ultimately show ?thesis
    by (simp add: direct_power_def t_def)
qed

lemma angle_accurate:
  assumes acc: "accurate A u" and u: "u \<le> 1 / 128" and d: "0 < d" "d \<le> 2 ^ 63"
    and i: "2 * int i < d" and p: "int p \<le> 2 ^ 63"
  shows "\<exists>\<theta>. fl_mul A (fl_of_int A (int p))
                (fl_exp A (fl_mul A (fl_of_int A (2 * int i))
                   (fl_of_real A (- ln 10000 / real_of_int d)))) = Fin \<theta> \<and>
             \<bar>\<theta> - real p * direct_power d i\<bar> \<le> 108 * u * (real p * direct_power d i)"
proof -
  define P where "P = direct_power d i"
  from factor_accurate [OF acc u d i] obtain f where
    f: "fl_exp A (fl_mul A (fl_of_int A (2 * int i))
                (fl_of_real A (- ln 10000 / real_of_int d))) = Fin f"
    and fb: "\<bar>f - P\<bar> \<le> 102 * u * P"
    unfolding P_def by blast
  from direct_power_range [OF d(1) i] have P: "1 / 2 ^ 16 \<le> P" "P \<le> 1"
    by (simp_all add: P_def)
  have "(0 :: real) < 1 / 2 ^ 16" by simp
  with P(1) have P0: "0 < P" by linarith
  have "0 \<le> int p \<and> int p \<le> 2 ^ 63" using p by simp
  with acc obtain e5 where e5: "\<bar>e5\<bar> \<le> u" "fl_of_int A (int p) = Fin (real p * (1 + e5))"
    unfolding accurate_def by (metis of_int_of_nat_eq)
  have u0: "0 \<le> u" using e5(1) by linarith
  have uu: "u * u \<le> u / 128"
    using mult_left_mono [OF u u0] by simp
  define g where "g = (f - P) / P"
  have fg: "f = P * (1 + g)"
    using P0 by (simp add: g_def field_simps)
  have g: "\<bar>g\<bar> \<le> 102 * u"
  proof -
    have "\<bar>g\<bar> = \<bar>f - P\<bar> / P"
      using P0 by (simp add: g_def)
    also have "\<dots> \<le> (102 * u * P) / P"
      using fb P0 by (intro divide_right_mono) simp_all
    finally show ?thesis using P0 by simp
  qed
  define a where "a = real p * (1 + e5)"
  have g5: "1 / 2 \<le> 1 + e5" "1 + e5 \<le> 2"
    using e5(1) u by simp_all
  have gg: "1 / 8 \<le> 1 + g" "1 + g \<le> 2"
    using g u by simp_all
  have g5g: "1 / 16 \<le> (1 + e5) * (1 + g)" "(1 + e5) * (1 + g) \<le> 4"
  proof -
    have "(1 / 2) * (1 / 8) \<le> (1 + e5) * (1 + g)"
      using g5 gg by (intro mult_mono) simp_all
    then show "1 / 16 \<le> (1 + e5) * (1 + g)" by simp
    have "(1 + e5) * (1 + g) \<le> 2 * 2"
      using g5 gg by (intro mult_mono) simp_all
    then show "(1 + e5) * (1 + g) \<le> 4" by simp
  qed
  have ab: "a * f = (real p * P) * ((1 + e5) * (1 + g))"
    by (simp add: a_def fg)
  have range: "a * f = 0 \<or> 1 / 2 ^ 100 \<le> \<bar>a * f\<bar> \<and> \<bar>a * f\<bar> \<le> 2 ^ 80"
  proof (cases "p = 0")
    case True
    then show ?thesis by (simp add: a_def)
  next
    case False
    then have p1: "1 \<le> real p" by simp
    have p63: "real p \<le> 2 ^ 63"
      using p by (metis of_int_le_iff of_int_numeral of_int_of_nat_eq of_int_power)
    have pP: "1 / 2 ^ 16 \<le> real p * P" "real p * P \<le> 2 ^ 63"
    proof -
      have "1 * (1 / 2 ^ 16) \<le> real p * P"
        using p1 P by (intro mult_mono) simp_all
      then show "1 / 2 ^ 16 \<le> real p * P" by simp
      have "real p * P \<le> 2 ^ 63 * 1"
        using p63 P P0 by (intro mult_mono) simp_all
      then show "real p * P \<le> 2 ^ 63" by simp
    qed
    have lo: "(1 / 2 ^ 16) * (1 / 16) \<le> (real p * P) * ((1 + e5) * (1 + g))"
      using pP g5g by (intro mult_mono) simp_all
    have hi: "(real p * P) * ((1 + e5) * (1 + g)) \<le> 2 ^ 63 * 4"
      using pP g5g by (intro mult_mono) simp_all
    have "0 \<le> a * f"
      using lo unfolding ab by simp
    then have "\<bar>a * f\<bar> = (real p * P) * ((1 + e5) * (1 + g))"
      by (simp add: ab)
    moreover have "(1 / 2 ^ 100 :: real) \<le> (1 / 2 ^ 16) * (1 / 16)" by simp
    moreover have "(2 ^ 63 * 4 :: real) \<le> 2 ^ 80" by simp
    ultimately show ?thesis using lo hi by linarith
  qed
  with acc obtain e6 where e6: "\<bar>e6\<bar> \<le> u" "fl_mul A (Fin a) (Fin f) = Fin (a * f * (1 + e6))"
    unfolding accurate_def by blast
  define k where "k = (1 + e5) * (1 + e6) - 1"
  have k: "\<bar>k\<bar> \<le> 3 * u"
    using two_errors [OF e5(1) e6(1) u0 u0] uu u0 unfolding k_def by linarith
  define h where "h = (1 + k) * (1 + g) - 1"
  have h: "\<bar>h\<bar> \<le> 108 * u"
  proof -
    have "\<bar>h\<bar> \<le> 3 * u + 102 * u + 3 * u * (102 * u)"
      unfolding h_def using two_errors [OF k g] u0 by simp
    then have "\<bar>h\<bar> \<le> 3 * u + 102 * u + 306 * (u * u)"
      by (simp add: algebra_simps)
    with uu u0 show ?thesis by linarith
  qed
  have th: "a * f * (1 + e6) = (real p * P) * (1 + h)"
    by (simp add: ab h_def k_def algebra_simps)
  have "\<bar>(real p * P) * (1 + h) - real p * P\<bar> = (real p * P) * \<bar>h\<bar>"
  proof -
    have "(real p * P) * (1 + h) - real p * P = (real p * P) * h"
      by (simp add: algebra_simps)
    moreover have "\<bar>(real p * P) * h\<bar> = \<bar>real p * P\<bar> * \<bar>h\<bar>"
      by (rule abs_mult)
    moreover have "\<bar>real p * P\<bar> = real p * P"
      using P0 by (intro abs_of_nonneg) simp
    ultimately show ?thesis by (simp only:)
  qed
  also have "\<dots> \<le> (real p * P) * (108 * u)"
    using h P0 by (intro mult_left_mono) simp_all
  finally have "\<bar>(real p * P) * (1 + h) - real p * P\<bar> \<le> 108 * u * (real p * P)"
    by (simp add: mult.commute)
  moreover have "fl_mul A (fl_of_int A (int p))
                (fl_exp A (fl_mul A (fl_of_int A (2 * int i))
                   (fl_of_real A (- ln 10000 / real_of_int d)))) = Fin ((real p * P) * (1 + h))"
    by (simp only: f e5(2) a_def [symmetric] e6(2) th)
  ultimately show ?thesis
    unfolding P_def by blast
qed

lemma exact_arith_accurate: "accurate exact_arith 0"
  unfolding accurate_def
  by (simp add: exact_arith_def lift1_def lift2_def)

lemma spec_angle_direct: "spec_angle d p i = real p * direct_power d i"
  by (simp add: spec_angle_def direct_power_def powr_minus divide_inverse)

section \<open>The entries of the table\<close>

lemma angle_direct:
  "real p * exp (real_of_int (2 * int i) * (- ln 10000 / real_of_int d)) = spec_angle d p i"
  by (simp add: spec_angle_def powr_def exp_minus divide_inverse)

lemma exact_entry:
  "fl_mul exact_arith (fl_of_int exact_arith (int p))
     (fl_exp exact_arith (fl_mul exact_arith (fl_of_int exact_arith (2 * int i))
        (fl_of_real exact_arith (- ln 10000 / real_of_int d))))
   = Fin (spec_angle d p i)"
proof -
  have "fl_mul exact_arith (fl_of_int exact_arith (int p))
     (fl_exp exact_arith (fl_mul exact_arith (fl_of_int exact_arith (2 * int i))
        (fl_of_real exact_arith (- ln 10000 / real_of_int d))))
     = Fin (real p * exp (real_of_int (2 * int i) * (- ln 10000 / real_of_int d)))"
    by (simp add: exact_arith_def lift1_def lift2_def)
  then show ?thesis by (simp only: angle_direct)
qed

lemma exact_sin: "fl_sin exact_arith (Fin a) = Fin (sin a)"
  by (simp add: exact_arith_def lift1_def)

lemma exact_cos: "fl_cos exact_arith (Fin a) = Fin (cos a)"
  by (simp add: exact_arith_def lift1_def)

lemma sizes_fit_positive:
  assumes "0 < m" and "0 < d" and "even d" and "4 * m * d \<le> 2 ^ 63 - 1"
  shows "init_sizes_ok d m"
proof -
  obtain b where b: "d = 2 * b" using assms(3) by (auto elim: evenE)
  have "8 * ((d + 1) div 2) = 4 * d"
    by (simp add: b)
  moreover have "4 * d \<le> 4 * m * d"
    using assms(1,2) by simp
  ultimately have "8 * ((d + 1) div 2) \<le> 2 ^ 63 - 1"
    using assms(4) by linarith
  with assms show ?thesis
    by (simp add: init_sizes_ok_iff)
qed

lemma sin_cos_one_apart: "\<not> (sin (x + 1) = sin x \<and> cos (x + 1) = cos x)" for x :: real
proof
  assume "sin (x + 1) = sin x \<and> cos (x + 1) = cos x"
  then obtain n :: int where n: "x + 1 = x + 2 * pi * real_of_int n"
    using sin_cos_eq_iff [of "x + 1" x] by auto
  then have eq: "2 * pi * real_of_int n = 1" by simp
  show False
  proof (cases "n \<le> 0")
    case True
    then have "2 * pi * real_of_int n \<le> 0"
      by (simp add: mult_nonneg_nonpos)
    with eq show False by simp
  next
    case False
    then have "1 \<le> real_of_int n" by simp
    then have "2 * pi * 1 \<le> 2 * pi * real_of_int n"
      by (intro mult_left_mono) simp_all
    with eq pi_ge_two show False by simp
  qed
qed

text \<open>
  C1 (as stated, refuted). The claim: for every max_length > 0 and even model_dimension > 0,
  table[p, 2i] = sin (p / 10000^(2i / model_dimension)) and table[p, 2i+1] = cos of the same
  angle, at every position. The positions are converted to 32-bit floats, which have 24
  significant bits: 16777217 = 2^24 + 1 converts to the same float as 16777216. With
  model_dimension = 2 and max_length = 16777218 the rows 16777216 and 16777217 of the table
  are therefore computed from the same numbers, whatever the rounding of the other
  operations, although sine and cosine cannot both agree at angles that are 1 apart. So the
  constructor succeeds at these sizes, and for no arithmetic that converts these two integers
  to the same float does the table satisfy the claim.
\<close>

theorem table_formula_counterexample:
  "(\<forall>A. \<not> isl (PositionalEncoding_init A 2 16777218)) \<and>
   \<not> (\<exists>A P. fl_of_int A 16777217 = fl_of_int A 16777216 \<and>
           PositionalEncoding_init A 2 16777218 = Inr P \<and>
           (\<forall>p<16777218. elem (pe P) [p, 0, 0] = Fin (sin (spec_angle 2 p 0)) \<and>
                          elem (pe P) [p, 0, 1] = Fin (cos (spec_angle 2 p 0))))"
proof (intro conjI allI)
  fix A
  have "init_sizes_ok 2 16777218"
    by (simp add: init_sizes_ok_def storage_ok_def storage_max_def)
  then show "\<not> isl (PositionalEncoding_init A 2 16777218)"
    using init_succeeds [of 16777218 2 A] by auto
next
  show "\<not> (\<exists>A P. fl_of_int A 16777217 = fl_of_int A 16777216 \<and>
             PositionalEncoding_init A 2 16777218 = Inr P \<and>
             (\<forall>p<16777218. elem (pe P) [p, 0, 0] = Fin (sin (spec_angle 2 p 0)) \<and>
                            elem (pe P) [p, 0, 1] = Fin (cos (spec_angle 2 p 0))))"
  proof
    assume "\<exists>A P. fl_of_int A 16777217 = fl_of_int A 16777216 \<and>
            PositionalEncoding_init A 2 16777218 = Inr P \<and>
            (\<forall>p<16777218. elem (pe P) [p, 0, 0] = Fin (sin (spec_angle 2 p 0)) \<and>
                           elem (pe P) [p, 0, 1] = Fin (cos (spec_angle 2 p 0)))"
    then obtain A P where same: "fl_of_int A 16777217 = fl_of_int A 16777216"
      and P: "PositionalEncoding_init A 2 16777218 = Inr P"
      and cl: "\<And>p. p < 16777218 \<Longrightarrow> elem (pe P) [p, 0, 0] = Fin (sin (spec_angle 2 p 0)) \<and>
                           elem (pe P) [p, 0, 1] = Fin (cos (spec_angle 2 p 0))"
      by blast
    from init_Inr_cases [OF P] have fit: "init_sizes_ok 2 16777218" by simp
    have ex: "\<exists>Q. PositionalEncoding_init A 2 16777218 = Inr Q \<and> shape (pe Q) = [nat 16777218, 1, nat 2] \<and>
             (\<forall>p k. p < nat 16777218 \<longrightarrow> 2 * k < nat 2 \<longrightarrow>
                elem (pe Q) [p, 0, 2 * k] =
                  fl_sin A (fl_mul A (fl_of_int A (int p))
                     (fl_exp A (fl_mul A (fl_of_int A (2 * int k))
                                         (fl_of_real A (- ln 10000 / real_of_int 2)))))) \<and>
             (\<forall>p k. p < nat 16777218 \<longrightarrow> 2 * k + 1 < nat 2 \<longrightarrow>
                elem (pe Q) [p, 0, 2 * k + 1] =
                  fl_cos A (fl_mul A (fl_of_int A (int p))
                     (fl_exp A (fl_mul A (fl_of_int A (2 * int k))
                                         (fl_of_real A (- ln 10000 / real_of_int 2))))))"
      by (rule init_succeeds) (simp_all add: fit)
    have sn: "\<And>p. p < 16777218 \<Longrightarrow> elem (pe P) [p, 0, 0] =
                  fl_sin A (fl_mul A (fl_of_int A (int p))
                     (fl_exp A (fl_mul A (fl_of_int A 0) (fl_of_real A (- ln 10000 / 2)))))"
      and cs: "\<And>p. p < 16777218 \<Longrightarrow> elem (pe P) [p, 0, 1] =
                  fl_cos A (fl_mul A (fl_of_int A (int p))
                     (fl_exp A (fl_mul A (fl_of_int A 0) (fl_of_real A (- ln 10000 / 2)))))"
    proof -
      from ex P obtain
        s: "\<And>p k. p < nat 16777218 \<Longrightarrow> 2 * k < nat 2 \<Longrightarrow>
                elem (pe P) [p, 0, 2 * k] =
                  fl_sin A (fl_mul A (fl_of_int A (int p))
                     (fl_exp A (fl_mul A (fl_of_int A (2 * int k))
                                         (fl_of_real A (- ln 10000 / real_of_int 2)))))"
        and c: "\<And>p k. p < nat 16777218 \<Longrightarrow> 2 * k + 1 < nat 2 \<Longrightarrow>
                elem (pe P) [p, 0, 2 * k + 1] =
                  fl_cos A (fl_mul A (fl_of_int A (int p))
                     (fl_exp A (fl_mul A (fl_of_int A (2 * int k))
                                         (fl_of_real A (- ln 10000 / real_of_int 2)))))"
        by auto
      show "\<And>p. p < 16777218 \<Longrightarrow> elem (pe P) [p, 0, 0] =
                  fl_sin A (fl_mul A (fl_of_int A (int p))
                     (fl_exp A (fl_mul A (fl_of_int A 0) (fl_of_real A (- ln 10000 / 2)))))"
        using s [of _ 0] by simp
      show "\<And>p. p < 16777218 \<Longrightarrow> elem (pe P) [p, 0, 1] =
                  fl_cos A (fl_mul A (fl_of_int A (int p))
                     (fl_exp A (fl_mul A (fl_of_int A 0) (fl_of_real A (- ln 10000 / 2)))))"
        using c [of _ 0] by simp
    qed
    have "elem (pe P) [16777217, 0, 0] = elem (pe P) [16777216, 0, 0]"
      using sn [of 16777217] sn [of 16777216] same by simp
    moreover have "elem (pe P) [16777217, 0, 1] = elem (pe P) [16777216, 0, 1]"
      using cs [of 16777217] cs [of 16777216] same by simp
    ultimately have "sin (spec_angle 2 16777217 0) = sin (spec_angle 2 16777216 0) \<and>
                     cos (spec_angle 2 16777217 0) = cos (spec_angle 2 16777216 0)"
      using cl [of 16777217] cl [of 16777216] by simp
    then have "sin (16777216 + 1) = sin (16777216 :: real) \<and> cos (16777216 + 1) = cos (16777216 :: real)"
      by (simp add: spec_angle_def)
    with sin_cos_one_apart [of 16777216] show False by blast
  qed
qed


text \<open>
  C1 (amended). For every max_length > 0 and even model_dimension > 0 whose table of
  4 * max_length * model_dimension bytes does not exceed 2^63 - 1 bytes, the constructor
  (on a machine with the memory for the table) builds a table of shape
  (max_length, 1, model_dimension) in which, for every position p < max_length and every
  index i < model_dimension / 2, the entry of column 2i is the floating-point sine, and the
  entry of column 2i + 1 the floating-point cosine, of the floating-point product of the
  position p and the factor exp (2i * (- ln 10000 / model_dimension)), itself computed in
  floating point. On an arithmetic whose operations return the exact result with a relative
  error of at most u \<le> 1/128, that product is an angle that differs from
  p / 10000^(2i / model_dimension) by at most 108 u times this angle. In exact arithmetic
  the entries are sin and cos of p / 10000^(2i / model_dimension).
\<close>

theorem positional_encoding_table:
  assumes "0 < max_length" and "0 < model_dimension" and "even model_dimension"
    and "4 * max_length * model_dimension \<le> 2 ^ 63 - 1"
  shows "(\<exists>P. PositionalEncoding_init A model_dimension max_length = Inr P \<and>
           shape (pe P) = [nat max_length, 1, nat model_dimension] \<and>
           (\<forall>p i. p < nat max_length \<longrightarrow> i < nat model_dimension div 2 \<longrightarrow>
              elem (pe P) [p, 0, 2 * i] =
                fl_sin A (fl_mul A (fl_of_int A (int p))
                  (fl_exp A (fl_mul A (fl_of_int A (2 * int i))
                     (fl_of_real A (- ln 10000 / real_of_int model_dimension))))) \<and>
              elem (pe P) [p, 0, 2 * i + 1] =
                fl_cos A (fl_mul A (fl_of_int A (int p))
                  (fl_exp A (fl_mul A (fl_of_int A (2 * int i))
                     (fl_of_real A (- ln 10000 / real_of_int model_dimension))))) \<and>
              (accurate A u \<and> u \<le> 1 / 128 \<longrightarrow>
                 (\<exists>\<theta>. elem (pe P) [p, 0, 2 * i] = fl_sin A (Fin \<theta>) \<and>
                      elem (pe P) [p, 0, 2 * i + 1] = fl_cos A (Fin \<theta>) \<and>
                      \<bar>\<theta> - spec_angle model_dimension p i\<bar>
                        \<le> 108 * u * spec_angle model_dimension p i)))) \<and>
         (\<exists>P. PositionalEncoding_init exact_arith model_dimension max_length = Inr P \<and>
           (\<forall>p i. p < nat max_length \<longrightarrow> i < nat model_dimension div 2 \<longrightarrow>
              elem (pe P) [p, 0, 2 * i] = Fin (sin (spec_angle model_dimension p i)) \<and>
              elem (pe P) [p, 0, 2 * i + 1] = Fin (cos (spec_angle model_dimension p i))))"
proof -
  have fit: "init_sizes_ok model_dimension max_length"
    using assms by (rule sizes_fit_positive)
  have ev: "even (nat model_dimension)"
    using assms by (simp add: even_nat_iff)
  have odd_in: "2 * i + 1 < nat model_dimension" if "i < nat model_dimension div 2" for i
    using that ev by (auto elim!: evenE)
  have d63: "model_dimension \<le> 2 ^ 63"
  proof -
    have "4 * 1 * model_dimension \<le> 4 * max_length * model_dimension"
      using assms(1,2) by (intro mult_mono) simp_all
    with assms(4) show ?thesis by simp
  qed
  have m63: "max_length \<le> 2 ^ 63"
  proof -
    have "4 * max_length * 1 \<le> 4 * max_length * model_dimension"
      using assms(1,2) by (intro mult_mono) simp_all
    with assms(4) show ?thesis by simp
  qed
  have gen: "\<exists>P. PositionalEncoding_init B model_dimension max_length = Inr P \<and>
           shape (pe P) = [nat max_length, 1, nat model_dimension] \<and>
           (\<forall>p i. p < nat max_length \<longrightarrow> i < nat model_dimension div 2 \<longrightarrow>
              elem (pe P) [p, 0, 2 * i] =
                fl_sin B (fl_mul B (fl_of_int B (int p))
                  (fl_exp B (fl_mul B (fl_of_int B (2 * int i))
                     (fl_of_real B (- ln 10000 / real_of_int model_dimension))))) \<and>
              elem (pe P) [p, 0, 2 * i + 1] =
                fl_cos B (fl_mul B (fl_of_int B (int p))
                  (fl_exp B (fl_mul B (fl_of_int B (2 * int i))
                     (fl_of_real B (- ln 10000 / real_of_int model_dimension))))))" for B
  proof -
    from assms fit obtain P where P: "PositionalEncoding_init B model_dimension max_length = Inr P"
      and sh: "shape (pe P) = [nat max_length, 1, nat model_dimension]"
      and sn: "\<And>p k. p < nat max_length \<Longrightarrow> 2 * k < nat model_dimension \<Longrightarrow>
              elem (pe P) [p, 0, 2 * k] =
                fl_sin B (fl_mul B (fl_of_int B (int p))
                  (fl_exp B (fl_mul B (fl_of_int B (2 * int k))
                     (fl_of_real B (- ln 10000 / real_of_int model_dimension)))))"
      and cs: "\<And>p k. p < nat max_length \<Longrightarrow> 2 * k + 1 < nat model_dimension \<Longrightarrow>
              elem (pe P) [p, 0, 2 * k + 1] =
                fl_cos B (fl_mul B (fl_of_int B (int p))
                  (fl_exp B (fl_mul B (fl_of_int B (2 * int k))
                     (fl_of_real B (- ln 10000 / real_of_int model_dimension)))))"
      using init_succeeds [of max_length model_dimension B] by auto
    have "elem (pe P) [p, 0, 2 * i] =
                fl_sin B (fl_mul B (fl_of_int B (int p))
                  (fl_exp B (fl_mul B (fl_of_int B (2 * int i))
                     (fl_of_real B (- ln 10000 / real_of_int model_dimension))))) \<and>
          elem (pe P) [p, 0, 2 * i + 1] =
                fl_cos B (fl_mul B (fl_of_int B (int p))
                  (fl_exp B (fl_mul B (fl_of_int B (2 * int i))
                     (fl_of_real B (- ln 10000 / real_of_int model_dimension)))))"
      if "p < nat max_length" "i < nat model_dimension div 2" for p i
      using that(1) odd_in [OF that(2)] sn [of p i] cs [of p i] by simp
    with P sh show ?thesis by blast
  qed
  from gen [of A] obtain P where P: "PositionalEncoding_init A model_dimension max_length = Inr P"
    and sh: "shape (pe P) = [nat max_length, 1, nat model_dimension]"
    and en: "\<And>p i. p < nat max_length \<Longrightarrow> i < nat model_dimension div 2 \<Longrightarrow>
              elem (pe P) [p, 0, 2 * i] =
                fl_sin A (fl_mul A (fl_of_int A (int p))
                  (fl_exp A (fl_mul A (fl_of_int A (2 * int i))
                     (fl_of_real A (- ln 10000 / real_of_int model_dimension))))) \<and>
              elem (pe P) [p, 0, 2 * i + 1] =
                fl_cos A (fl_mul A (fl_of_int A (int p))
                  (fl_exp A (fl_mul A (fl_of_int A (2 * int i))
                     (fl_of_real A (- ln 10000 / real_of_int model_dimension)))))"
    by blast
  have close: "\<exists>\<theta>. elem (pe P) [p, 0, 2 * i] = fl_sin A (Fin \<theta>) \<and>
                      elem (pe P) [p, 0, 2 * i + 1] = fl_cos A (Fin \<theta>) \<and>
                      \<bar>\<theta> - spec_angle model_dimension p i\<bar>
                        \<le> 108 * u * spec_angle model_dimension p i"
    if p: "p < nat max_length" and i: "i < nat model_dimension div 2"
      and acc: "accurate A u" and u: "u \<le> 1 / 128" for p i
  proof -
    have i2: "2 * int i < model_dimension"
      using i assms(2) by linarith
    have pp: "int p \<le> 2 ^ 63"
      using p m63 by linarith
    from angle_accurate [OF acc u assms(2) d63 i2 pp] obtain \<theta> where
      th: "fl_mul A (fl_of_int A (int p))
                (fl_exp A (fl_mul A (fl_of_int A (2 * int i))
                   (fl_of_real A (- ln 10000 / real_of_int model_dimension)))) = Fin \<theta>"
      and bd: "\<bar>\<theta> - real p * direct_power model_dimension i\<bar>
                      \<le> 108 * u * (real p * direct_power model_dimension i)"
      by blast
    from en [OF p i] th bd show ?thesis
      by (auto simp add: spec_angle_direct)
  qed
  have one: "\<exists>P. PositionalEncoding_init A model_dimension max_length = Inr P \<and>
           shape (pe P) = [nat max_length, 1, nat model_dimension] \<and>
           (\<forall>p i. p < nat max_length \<longrightarrow> i < nat model_dimension div 2 \<longrightarrow>
              elem (pe P) [p, 0, 2 * i] =
                fl_sin A (fl_mul A (fl_of_int A (int p))
                  (fl_exp A (fl_mul A (fl_of_int A (2 * int i))
                     (fl_of_real A (- ln 10000 / real_of_int model_dimension))))) \<and>
              elem (pe P) [p, 0, 2 * i + 1] =
                fl_cos A (fl_mul A (fl_of_int A (int p))
                  (fl_exp A (fl_mul A (fl_of_int A (2 * int i))
                     (fl_of_real A (- ln 10000 / real_of_int model_dimension))))) \<and>
              (accurate A u \<and> u \<le> 1 / 128 \<longrightarrow>
                 (\<exists>\<theta>. elem (pe P) [p, 0, 2 * i] = fl_sin A (Fin \<theta>) \<and>
                      elem (pe P) [p, 0, 2 * i + 1] = fl_cos A (Fin \<theta>) \<and>
                      \<bar>\<theta> - spec_angle model_dimension p i\<bar>
                        \<le> 108 * u * spec_angle model_dimension p i)))"
    using P sh en close by blast
  from gen [of exact_arith] have
    "\<exists>P. PositionalEncoding_init exact_arith model_dimension max_length = Inr P \<and>
           (\<forall>p i. p < nat max_length \<longrightarrow> i < nat model_dimension div 2 \<longrightarrow>
              elem (pe P) [p, 0, 2 * i] = Fin (sin (spec_angle model_dimension p i)) \<and>
              elem (pe P) [p, 0, 2 * i + 1] = Fin (cos (spec_angle model_dimension p i)))"
    by (simp only: exact_entry exact_sin exact_cos) blast
  with one show ?thesis by blast
qed


theorem positional_encoding_table_witness:
  "accurate exact_arith 0 \<and>
   (\<exists>P. PositionalEncoding_init exact_arith 4 3 = Inr P \<and> shape (pe P) = [3, 1, 4] \<and>
      elem (pe P) [2, 0, 2] = Fin (sin (spec_angle 4 2 1)) \<and>
      elem (pe P) [2, 0, 3] = Fin (cos (spec_angle 4 2 1)))"
proof -
  have "\<exists>P. PositionalEncoding_init exact_arith 4 3 = Inr P \<and>
           shape (pe P) = [nat 3, 1, nat 4] \<and>
           (\<forall>p i. p < nat 3 \<longrightarrow> i < nat 4 div 2 \<longrightarrow>
              elem (pe P) [p, 0, 2 * i] =
                fl_sin exact_arith (fl_mul exact_arith (fl_of_int exact_arith (int p))
                  (fl_exp exact_arith (fl_mul exact_arith (fl_of_int exact_arith (2 * int i))
                     (fl_of_real exact_arith (- ln 10000 / real_of_int 4))))) \<and>
              elem (pe P) [p, 0, 2 * i + 1] =
                fl_cos exact_arith (fl_mul exact_arith (fl_of_int exact_arith (int p))
                  (fl_exp exact_arith (fl_mul exact_arith (fl_of_int exact_arith (2 * int i))
                     (fl_of_real exact_arith (- ln 10000 / real_of_int 4))))) \<and>
              (accurate exact_arith 0 \<and> (0 :: real) \<le> 1 / 128 \<longrightarrow>
                 (\<exists>\<theta>. elem (pe P) [p, 0, 2 * i] = fl_sin exact_arith (Fin \<theta>) \<and>
                      elem (pe P) [p, 0, 2 * i + 1] = fl_cos exact_arith (Fin \<theta>) \<and>
                      \<bar>\<theta> - spec_angle 4 p i\<bar> \<le> 108 * 0 * spec_angle 4 p i)))"
    using positional_encoding_table [of 3 4 exact_arith 0] by simp
  then obtain P where P: "PositionalEncoding_init exact_arith 4 3 = Inr P" "shape (pe P) = [nat 3, 1, nat 4]"
    and e: "\<And>p i. p < nat 3 \<Longrightarrow> i < nat 4 div 2 \<Longrightarrow> accurate exact_arith 0 \<Longrightarrow>
              \<exists>\<theta>. elem (pe P) [p, 0, 2 * i] = fl_sin exact_arith (Fin \<theta>) \<and>
                      elem (pe P) [p, 0, 2 * i + 1] = fl_cos exact_arith (Fin \<theta>) \<and>
                      \<bar>\<theta> - spec_angle 4 p i\<bar> \<le> 108 * 0 * spec_angle 4 p i"
    by auto
  from e [of 2 1, OF _ _ exact_arith_accurate]
  have "elem (pe P) [2, 0, 2] = Fin (sin (spec_angle 4 2 1)) \<and>
        elem (pe P) [2, 0, 3] = Fin (cos (spec_angle 4 2 1))"
    by (auto simp add: exact_sin exact_cos)
  with P exact_arith_accurate show ?thesis by auto
qed

section \<open>Finite entries\<close>

lemma is_finite_iff: "is_finite v \<longleftrightarrow> (\<exists>r. v = Fin r)"
  by (cases v) (simp_all add: is_finite_def)

lemma ln_10000_bounds: "0 \<le> ln (10000 :: real) \<and> ln (10000 :: real) \<le> 10000"
proof -
  have "ln (10000 :: real) \<le> 10000 - 1"
    by (rule ln_le_minus_one) simp
  moreover have "0 \<le> ln (10000 :: real)"
    by simp
  ultimately show ?thesis by simp
qed

lemma scalar_range:
  assumes "0 < d"
  shows "- 10000 \<le> - ln 10000 / real_of_int d \<and> - ln 10000 / real_of_int d \<le> 0"
proof -
  have d1: "1 \<le> real_of_int d" using assms by simp
  have "ln 10000 / real_of_int d \<le> ln 10000 / 1"
    using d1 ln_10000_bounds by (intro divide_left_mono) simp_all
  with ln_10000_bounds have "ln 10000 / real_of_int d \<le> 10000" by simp
  moreover have "0 \<le> ln 10000 / real_of_int d"
    using d1 ln_10000_bounds by simp
  ultimately show ?thesis by simp
qed

lemma factor_range:
  assumes A: "ieee_like A" and d: "0 < d" and k: "2 * int k \<le> 2 ^ 63"
  shows "\<exists>t. fl_exp A (fl_mul A (fl_of_int A (2 * int k))
                  (fl_of_real A (- ln 10000 / real_of_int d))) = Fin t \<and> 0 \<le> t \<and> t \<le> 1"
proof -
  from A k obtain a where a: "fl_of_int A (2 * int k) = Fin a" "0 \<le> a" "a \<le> 2 ^ 63"
    unfolding ieee_like_def by (metis mult_nonneg_nonneg of_nat_0_le_iff zero_le_numeral)
  from A scalar_range [OF d] obtain c where
    c: "fl_of_real A (- ln 10000 / real_of_int d) = Fin c" "- 10000 \<le> c" "c \<le> 0"
    unfolding ieee_like_def by blast
  have "\<bar>a * c\<bar> = a * (- c)"
    using a(2) c(3) by (simp add: abs_mult)
  also have "\<dots> \<le> 2 ^ 63 * 10000"
    using a c by (intro mult_mono) simp_all
  also have "\<dots> \<le> (2 ^ 80 :: real)"
    by simp
  finally have small: "\<bar>a * c\<bar> \<le> 2 ^ 80" .
  have neg: "a * c \<le> 0"
    using a(2) c(3) by (simp add: mult_nonneg_nonpos)
  from A small neg obtain r where r: "fl_mul A (Fin a) (Fin c) = Fin r" "r \<le> 0"
    unfolding ieee_like_def by blast
  from A r(2) obtain t where "fl_exp A (Fin r) = Fin t" "0 \<le> t" "t \<le> 1"
    unfolding ieee_like_def by blast
  with a(1) c(1) r(1) show ?thesis by simp
qed

lemma angle_finite:
  assumes A: "ieee_like A" and p: "int p \<le> 2 ^ 63" and t: "0 \<le> t" "t \<le> 1"
  shows "\<exists>r. fl_mul A (fl_of_int A (int p)) (Fin t) = Fin r"
proof -
  from A p obtain a where a: "fl_of_int A (int p) = Fin a" "0 \<le> a" "a \<le> 2 ^ 63"
    unfolding ieee_like_def by (metis of_nat_0_le_iff)
  have "\<bar>a * t\<bar> = a * t"
    using a(2) t(1) by simp
  also have "\<dots> \<le> 2 ^ 63 * 1"
    using a t by (intro mult_mono) simp_all
  also have "\<dots> \<le> (2 ^ 80 :: real)"
    by simp
  finally have "\<bar>a * t\<bar> \<le> 2 ^ 80" .
  with A obtain r where "fl_mul A (Fin a) (Fin t) = Fin r"
    unfolding ieee_like_def by blast
  with a(1) show ?thesis by simp
qed

lemma angle_zero:
  assumes A: "ieee_like A" and t: "0 \<le> t" "t \<le> 1"
  shows "fl_mul A (fl_of_int A 0) (Fin t) = Fin 0"
proof -
  have z: "fl_of_int A 0 = Fin 0"
    using A unfolding ieee_like_def by blast
  have "\<bar>0 * t\<bar> \<le> (2 ^ 80 :: real)" by simp
  with A obtain r where r: "fl_mul A (Fin 0) (Fin t) = Fin r"
    "0 \<le> 0 * t \<longrightarrow> 0 \<le> r" "0 * t \<le> 0 \<longrightarrow> r \<le> 0"
    unfolding ieee_like_def by blast
  then have "r = 0" by simp
  with r(1) z show ?thesis by simp
qed

lemma exact_arith_ieee_like: "ieee_like exact_arith"
  unfolding ieee_like_def
  by (simp add: exact_arith_def lift1_def lift2_def is_finite_def)

text \<open>
  C6. For every even positive model_dimension and positive max_length, and for every
  floating-point arithmetic with the guarantees of \<open>ieee_like\<close>: the constructor succeeds
  when the table of 4 * max_length * model_dimension bytes does not exceed 2^63 - 1 bytes
  (on a machine with the memory for the table), and in every table that it builds row 0 is
  the alternating vector 0, 1, 0, 1, ... and every entry is a finite number, neither NaN nor
  infinite.
\<close>

theorem row_zero_alternates:
  assumes "ieee_like A" and "0 < max_length" and "0 < model_dimension" and "even model_dimension"
  shows "(4 * max_length * model_dimension \<le> 2 ^ 63 - 1 \<longrightarrow>
            \<not> isl (PositionalEncoding_init A model_dimension max_length)) \<and>
         (\<forall>P. PositionalEncoding_init A model_dimension max_length = Inr P \<longrightarrow>
            (\<forall>j<nat model_dimension. elem (pe P) [0, 0, j] = (if even j then Fin 0 else Fin 1)) \<and>
            (\<forall>p<nat max_length. \<forall>j<nat model_dimension. is_finite (elem (pe P) [p, 0, j])))"
proof -
  have ex: "\<not> isl (PositionalEncoding_init A model_dimension max_length)"
    if "4 * max_length * model_dimension \<le> 2 ^ 63 - 1"
  proof -
    have "init_sizes_ok model_dimension max_length"
      using assms(2-4) that by (rule sizes_fit_positive)
    with assms(2-4) init_succeeds [of max_length model_dimension A] show ?thesis by auto
  qed
  have tab: "(\<forall>j<nat model_dimension. elem (pe P) [0, 0, j] = (if even j then Fin 0 else Fin 1)) \<and>
            (\<forall>p<nat max_length. \<forall>j<nat model_dimension. is_finite (elem (pe P) [p, 0, j]))"
    if P: "PositionalEncoding_init A model_dimension max_length = Inr P" for P
  proof -
    from init_Inr_cases [OF P] have fit: "init_sizes_ok model_dimension max_length" by simp
    from fit have mb: "4 * nat max_length \<le> storage_max" and db: "nat model_dimension \<le> storage_max"
      by (simp_all add: init_sizes_ok_def storage_ok_def)
    have smax: "int storage_max \<le> 2 ^ 63"
      by (simp add: storage_max_def)
    have pb: "int p \<le> 2 ^ 63" if "p < nat max_length" for p
    proof -
      from that mb have "p \<le> storage_max" by linarith
      then have "int p \<le> int storage_max" by simp
      with smax show ?thesis by linarith
    qed
    have kb: "2 * int k \<le> 2 ^ 63" if "2 * k < nat model_dimension" for k
    proof -
      from that db have "2 * k \<le> storage_max" by linarith
      then have "int (2 * k) \<le> int storage_max" by (simp only: of_nat_le_iff)
      with smax show ?thesis by simp
    qed
    from assms(2-4) fit P
    have sn: "\<And>p k. p < nat max_length \<Longrightarrow> 2 * k < nat model_dimension \<Longrightarrow>
              elem (pe P) [p, 0, 2 * k] =
                fl_sin A (fl_mul A (fl_of_int A (int p))
                  (fl_exp A (fl_mul A (fl_of_int A (2 * int k))
                     (fl_of_real A (- ln 10000 / real_of_int model_dimension)))))"
      and cs: "\<And>p k. p < nat max_length \<Longrightarrow> 2 * k + 1 < nat model_dimension \<Longrightarrow>
              elem (pe P) [p, 0, 2 * k + 1] =
                fl_cos A (fl_mul A (fl_of_int A (int p))
                  (fl_exp A (fl_mul A (fl_of_int A (2 * int k))
                     (fl_of_real A (- ln 10000 / real_of_int model_dimension)))))"
      using init_succeeds [of max_length model_dimension A] by auto
    have sin0: "fl_sin A (Fin 0) = Fin 0" and cos0: "fl_cos A (Fin 0) = Fin 1"
      and fin: "\<And>a. is_finite (fl_sin A (Fin a))" "\<And>a. is_finite (fl_cos A (Fin a))"
      using assms(1) unfolding ieee_like_def by blast+
    have m0: "0 < nat max_length" using assms(2) by simp
    have row0: "elem (pe P) [0, 0, j] = (if even j then Fin 0 else Fin 1)"
      if j: "j < nat model_dimension" for j
    proof (cases "even j")
      case True
      then obtain k where k: "j = 2 * k" by (auto elim: evenE)
      with j have "2 * k < nat model_dimension" by simp
      from factor_range [OF assms(1,3) kb [OF this]] obtain t where
        t: "fl_exp A (fl_mul A (fl_of_int A (2 * int k))
              (fl_of_real A (- ln 10000 / real_of_int model_dimension))) = Fin t" "0 \<le> t" "t \<le> 1"
        by blast
      have "elem (pe P) [0, 0, 2 * k] = fl_sin A (fl_mul A (fl_of_int A 0) (Fin t))"
        using sn [OF m0 \<open>2 * k < nat model_dimension\<close>] t(1) by simp
      then show ?thesis
        using angle_zero [OF assms(1) t(2,3)] sin0 True k by simp
    next
      case False
      then obtain k where k: "j = 2 * k + 1" by (auto elim: oddE)
      with j have k1: "2 * k + 1 < nat model_dimension" by simp
      then have "2 * k < nat model_dimension" by simp
      from factor_range [OF assms(1,3) kb [OF this]] obtain t where
        t: "fl_exp A (fl_mul A (fl_of_int A (2 * int k))
              (fl_of_real A (- ln 10000 / real_of_int model_dimension))) = Fin t" "0 \<le> t" "t \<le> 1"
        by blast
      have "elem (pe P) [0, 0, 2 * k + 1] = fl_cos A (fl_mul A (fl_of_int A 0) (Fin t))"
        using cs [OF m0 k1] t(1) by simp
      then show ?thesis
        using angle_zero [OF assms(1) t(2,3)] cos0 False k by simp
    qed
    have finite: "is_finite (elem (pe P) [p, 0, j])"
      if p: "p < nat max_length" and j: "j < nat model_dimension" for p j
    proof (cases "even j")
      case True
      then obtain k where k: "j = 2 * k" by (auto elim: evenE)
      with j have k0: "2 * k < nat model_dimension" by simp
      from factor_range [OF assms(1,3) kb [OF k0]] obtain t where
        t: "fl_exp A (fl_mul A (fl_of_int A (2 * int k))
              (fl_of_real A (- ln 10000 / real_of_int model_dimension))) = Fin t" "0 \<le> t" "t \<le> 1"
        by blast
      from angle_finite [OF assms(1) pb [OF p] t(2,3)] obtain r where
        "fl_mul A (fl_of_int A (int p)) (Fin t) = Fin r" by blast
      with sn [OF p k0] t(1) fin(1) [of r] k show ?thesis by simp
    next
      case False
      then obtain k where k: "j = 2 * k + 1" by (auto elim: oddE)
      with j have k1: "2 * k + 1 < nat model_dimension" by simp
      then have k0: "2 * k < nat model_dimension" by simp
      from factor_range [OF assms(1,3) kb [OF k0]] obtain t where
        t: "fl_exp A (fl_mul A (fl_of_int A (2 * int k))
              (fl_of_real A (- ln 10000 / real_of_int model_dimension))) = Fin t" "0 \<le> t" "t \<le> 1"
        by blast
      from angle_finite [OF assms(1) pb [OF p] t(2,3)] obtain r where
        "fl_mul A (fl_of_int A (int p)) (Fin t) = Fin r" by blast
      with cs [OF p k1] t(1) fin(2) [of r] k show ?thesis by simp
    qed
    from row0 finite show ?thesis by blast
  qed
  from ex tab show ?thesis by blast
qed

theorem row_zero_alternates_witness:
  "ieee_like exact_arith \<and>
   (\<exists>P. PositionalEncoding_init exact_arith 4 3 = Inr P \<and>
     elem (pe P) [0, 0, 0] = Fin 0 \<and> elem (pe P) [0, 0, 1] = Fin 1 \<and>
     elem (pe P) [0, 0, 2] = Fin 0 \<and> elem (pe P) [0, 0, 3] = Fin 1 \<and>
     is_finite (elem (pe P) [2, 0, 3]))"
proof -
  have w: "(4 * 3 * 4 \<le> (2 ^ 63 - 1 :: int) \<longrightarrow>
            \<not> isl (PositionalEncoding_init exact_arith 4 3)) \<and>
         (\<forall>P. PositionalEncoding_init exact_arith 4 3 = Inr P \<longrightarrow>
            (\<forall>j<nat 4. elem (pe P) [0, 0, j] = (if even j then Fin 0 else Fin 1)) \<and>
            (\<forall>p<nat 3. \<forall>j<nat 4. is_finite (elem (pe P) [p, 0, j])))"
    by (rule row_zero_alternates [OF exact_arith_ieee_like]) simp_all
  then have "\<not> isl (PositionalEncoding_init exact_arith 4 3)" by simp
  then obtain P where P: "PositionalEncoding_init exact_arith 4 3 = Inr P"
    by (cases "PositionalEncoding_init exact_arith 4 3") auto
  with w have r: "\<And>j. j < 4 \<Longrightarrow> elem (pe P) [0, 0, j] = (if even j then Fin 0 else Fin 1)"
    and f: "\<And>p j. p < 3 \<Longrightarrow> j < 4 \<Longrightarrow> is_finite (elem (pe P) [p, 0, j])"
    by auto
  from r [of 0] r [of 1] r [of 2] r [of 3] f [of 2 3] P exact_arith_ieee_like
  show ?thesis by auto
qed

section \<open>Exponent of a logarithm and direct power\<close>







section \<open>When the constructor fails\<close>

lemma init_not_fit:
  assumes m: "0 \<le> m" and d: "0 \<le> d" and nf: "\<not> init_sizes_ok d m"
  shows "PositionalEncoding_init A d m = Inl RuntimeError"
proof -
  from nf consider "\<not> storage_ok 4 [nat m, nat d]"
    | "storage_ok 4 [nat m, nat d]" "\<not> storage_ok 4 [nat m]"
    | "storage_ok 4 [nat m, nat d]" "storage_ok 4 [nat m]" "\<not> storage_ok 8 [(nat d + 1) div 2]"
    by (auto simp add: init_sizes_ok_def)
  then show ?thesis
  proof cases
    case 1
    then show ?thesis by (simp add: init_refused_table)
  next
    case 2
    with m d show ?thesis by (intro init_refused_positions) auto
  next
    case 3
    with m d show ?thesis
      by (intro init_div_term_fails div_term_refused) auto
  qed
qed

lemma init_zero:
  assumes "0 \<le> m" and "init_sizes_ok 0 m"
  shows "PositionalEncoding_init A 0 m = Inl ZeroDivisionError"
  using assms by (intro init_div_term_fails div_term_zero) (simp_all add: init_sizes_ok_def)

lemma init_sizes_ok_zero:
  assumes "0 \<le> m" and "4 * m \<le> 2 ^ 63 - 1"
  shows "init_sizes_ok 0 m"
proof -
  have "int (4 * nat m) \<le> int storage_max"
    using assms by (simp add: storage_max_def)
  then have "4 * nat m \<le> storage_max"
    by (simp only: of_nat_le_iff)
  then show ?thesis
    by (simp add: init_sizes_ok_def storage_ok_def)
qed

lemma table_too_large:
  assumes "0 \<le> m" and "0 \<le> d" and "2 ^ 63 - 1 < 4 * m * d"
  shows "\<not> init_sizes_ok d m"
proof
  assume "init_sizes_ok d m"
  then have "4 * (nat m * nat d) \<le> storage_max"
    by (simp add: init_sizes_ok_def storage_ok_def)
  then have "int (4 * (nat m * nat d)) \<le> int storage_max"
    by (simp only: of_nat_le_iff)
  then have "4 * m * d \<le> 2 ^ 63 - 1"
    using assms(1,2) by (simp add: storage_max_def mult.assoc)
  with assms(3) show False by simp
qed

lemma init_error_kinds:
  assumes "PositionalEncoding_init A d m = Inl e"
  shows "e = RuntimeError \<or> e = ZeroDivisionError"
proof (cases "m < 0 \<or> d < 0")
  case True
  with assms init_refused_table [of m d A] show ?thesis by auto
next
  case nonneg: False
  show ?thesis
  proof (cases "init_sizes_ok d m")
    case False
    with nonneg assms init_not_fit [of m d A] show ?thesis by simp
  next
    case fit: True
    show ?thesis
    proof (cases "d = 0")
      case True
      with nonneg fit assms init_zero [of m A] show ?thesis by simp
    next
      case False
      with nonneg have pos: "0 \<le> m" "0 < d" by auto
      show ?thesis
      proof (cases "even d \<or> d = 1")
        case True
        from init_succeeds [OF pos True fit, of A] assms show ?thesis by auto
      next
        case False
        with pos have "1 < d" "odd d" by auto
        with pos(1) assms init_odd [of m d A] show ?thesis by simp
      qed
    qed
  qed
qed

text \<open>
  C4 (as stated, refuted). The claim: construction fails with an InvalidDimension error if
  and only if model_dimension is odd or non-positive, or max_length is non-positive. The
  constructor has no check of its own: with max_length = 0 and model_dimension = 2 it
  succeeds (with an empty table), and with model_dimension = 3 it fails with the framework's
  RuntimeError, raised by the assignment of the cosine columns.
\<close>

theorem init_invalid_dimension_counterexample:
  "\<forall>A. \<not> isl (PositionalEncoding_init A 2 0) \<and> PositionalEncoding_init A 3 5 = Inl RuntimeError"
proof
  fix A
  have "init_sizes_ok 2 0"
    by (simp add: init_sizes_ok_def storage_ok_def storage_max_def)
  then obtain P where "PositionalEncoding_init A 2 0 = Inr P"
    using init_succeeds [of 0 2 A] by auto
  moreover have "PositionalEncoding_init A 3 5 = Inl RuntimeError"
    by (rule init_odd) simp_all
  ultimately show "\<not> isl (PositionalEncoding_init A 2 0) \<and> PositionalEncoding_init A 3 5 = Inl RuntimeError"
    by simp
qed

text \<open>
  C4 (amended). Construction never fails with InvalidDimension: when it fails, it is with
  RuntimeError or ZeroDivisionError. It fails with RuntimeError when max_length or
  model_dimension is negative, when model_dimension is odd and at least 3, and when the
  table of 4 * max_length * model_dimension bytes would exceed 2^63 - 1 bytes; it fails with
  ZeroDivisionError when model_dimension is 0 and max_length is not negative (and the
  4 * max_length bytes of the positions do not exceed 2^63 - 1). On a machine with the
  memory for the table it succeeds whenever model_dimension is even and positive, max_length
  is not negative, and neither 4 * max_length * model_dimension nor 4 * model_dimension
  exceeds 2^63 - 1.
\<close>

theorem init_failures:
  "(0 \<le> max_length \<and> 0 < model_dimension \<and> even model_dimension \<and>
    4 * max_length * model_dimension \<le> 2 ^ 63 - 1 \<and> 4 * model_dimension \<le> 2 ^ 63 - 1 \<longrightarrow>
      \<not> isl (PositionalEncoding_init A model_dimension max_length)) \<and>
   (max_length < 0 \<or> model_dimension < 0 \<longrightarrow>
      PositionalEncoding_init A model_dimension max_length = Inl RuntimeError) \<and>
   (0 \<le> max_length \<and> 0 \<le> model_dimension \<and> 2 ^ 63 - 1 < 4 * max_length * model_dimension \<longrightarrow>
      PositionalEncoding_init A model_dimension max_length = Inl RuntimeError) \<and>
   (0 \<le> max_length \<and> 1 < model_dimension \<and> odd model_dimension \<longrightarrow>
      PositionalEncoding_init A model_dimension max_length = Inl RuntimeError) \<and>
   (0 \<le> max_length \<and> model_dimension = 0 \<and> 4 * max_length \<le> 2 ^ 63 - 1 \<longrightarrow>
      PositionalEncoding_init A model_dimension max_length = Inl ZeroDivisionError) \<and>
   (\<forall>e. PositionalEncoding_init A model_dimension max_length = Inl e \<longrightarrow>
      e = RuntimeError \<or> e = ZeroDivisionError) \<and>
   PositionalEncoding_init A model_dimension max_length \<noteq> Inl InvalidDimension"
proof -
  have ok: "\<not> isl (PositionalEncoding_init A model_dimension max_length)"
    if h: "0 \<le> max_length" "0 < model_dimension" "even model_dimension"
      "4 * max_length * model_dimension \<le> 2 ^ 63 - 1" "4 * model_dimension \<le> 2 ^ 63 - 1"
  proof -
    obtain b where b: "model_dimension = 2 * b" using h(3) by (auto elim: evenE)
    have "8 * ((model_dimension + 1) div 2) = 4 * model_dimension"
      by (simp add: b)
    with h have "init_sizes_ok model_dimension max_length"
      by (simp add: init_sizes_ok_iff)
    with h(1-3) init_succeeds [of max_length model_dimension A] show ?thesis by auto
  qed
  have neg: "PositionalEncoding_init A model_dimension max_length = Inl RuntimeError"
    if "max_length < 0 \<or> model_dimension < 0"
    using that by (intro init_refused_table) auto
  have large: "PositionalEncoding_init A model_dimension max_length = Inl RuntimeError"
    if "0 \<le> max_length" "0 \<le> model_dimension" "2 ^ 63 - 1 < 4 * max_length * model_dimension"
    using that by (intro init_not_fit table_too_large)
  have odd: "PositionalEncoding_init A model_dimension max_length = Inl RuntimeError"
    if "0 \<le> max_length" "1 < model_dimension" "odd model_dimension"
    using that by (rule init_odd)
  have zero: "PositionalEncoding_init A model_dimension max_length = Inl ZeroDivisionError"
    if "0 \<le> max_length" "model_dimension = 0" "4 * max_length \<le> 2 ^ 63 - 1"
    using that init_zero [OF that(1) init_sizes_ok_zero [OF that(1,3)], of A] by simp
  have kinds: "e = RuntimeError \<or> e = ZeroDivisionError"
    if "PositionalEncoding_init A model_dimension max_length = Inl e" for e
    using that by (rule init_error_kinds)
  have never: "PositionalEncoding_init A model_dimension max_length \<noteq> Inl InvalidDimension"
    using kinds [of InvalidDimension] by auto
  from ok neg large odd zero kinds never show ?thesis by blast
qed

theorem init_failures_witness:
  "\<not> isl (PositionalEncoding_init exact_arith 4 3) \<and>
   PositionalEncoding_init exact_arith 4 (- 1) = Inl RuntimeError \<and>
   PositionalEncoding_init exact_arith 2 (2 ^ 63 - 1) = Inl RuntimeError \<and>
   PositionalEncoding_init exact_arith 3 3 = Inl RuntimeError \<and>
   PositionalEncoding_init exact_arith 0 3 = Inl ZeroDivisionError"
  using init_failures [of 3 4 exact_arith] init_failures [of "- 1" 4 exact_arith]
    init_failures [of "2 ^ 63 - 1" 2 exact_arith] init_failures [of 3 3 exact_arith]
    init_failures [of 3 0 exact_arith]
  by simp

section \<open>Properties of the forward pass of the positional encoding\<close>

lemma small_sizes_ok: "init_sizes_ok 4 3"
  by (simp add: init_sizes_ok_def storage_ok_def storage_max_def)

lemma broadcast_batch: "broadcast_shapes [l, b, d] [l, Suc 0, d] = Some [l, b, d]"
  by (simp add: broadcast_shapes_def)

lemma bidx_full: "l < L \<Longrightarrow> b < B \<Longrightarrow> j < D \<Longrightarrow> bidx [L, B, D] [l, b, j] = [l, b, j]"
  by (auto simp add: bidx_def)

lemma bidx_batch: "l < L \<Longrightarrow> j < D \<Longrightarrow> bidx [L, Suc 0, D] [l, b, j] = [l, 0, j]"
  by (auto simp add: bidx_def)

lemma forward_in_range:
  assumes sp: "shape (pe P) = [M, 1, D]" and sx: "shape x = [L, B, D]" and le: "L \<le> M"
  shows "\<exists>y. fst (PositionalEncoding_forward A P x) = Inr y \<and> shape y = [L, B, D] \<and>
           (\<forall>l<L. \<forall>b<B. \<forall>j<D. elem y [l, b, j] = fl_add A (elem x [l, b, j]) (elem (pe P) [l, 0, j]))"
proof -
  have s0: "size0 x = Inr L"
    by (simp add: size0_def sx)
  have sl: "slice_rows (pe P) L = Inr \<lparr>shape = [L, 1, D], elem = elem (pe P)\<rparr>"
    using le by (simp add: slice_rows_def sp min_def)
  have ad: "add_t A x \<lparr>shape = [L, 1, D], elem = elem (pe P)\<rparr> =
      Inr \<lparr>shape = [L, B, D],
           elem = (\<lambda>idx. fl_add A (elem x (bidx [L, B, D] idx)) (elem (pe P) (bidx [L, 1, D] idx)))\<rparr>"
    by (simp add: add_t_def binop_def sx broadcast_batch)
  have "fst (PositionalEncoding_forward A P x) =
      Inr \<lparr>shape = [L, B, D],
           elem = (\<lambda>idx. fl_add A (elem x (bidx [L, B, D] idx)) (elem (pe P) (bidx [L, 1, D] idx)))\<rparr>"
    unfolding PositionalEncoding_forward_def fst_conv by (simp only: s0 sl ad ebind_Inr)
  then show ?thesis
    by (simp add: bidx_full bidx_batch)
qed

lemma broadcast_mismatch:
  "L \<noteq> M \<Longrightarrow> L \<noteq> 1 \<Longrightarrow> M \<noteq> 1 \<Longrightarrow> broadcast_shapes [L, B, D] [M, Suc 0, D] = None"
  by (simp add: broadcast_shapes_def)

lemma forward_too_long:
  assumes sp: "shape (pe P) = [M, 1, D]" and sx: "shape x = [L, B, D]" and lt: "M < L" and M: "1 < M"
  shows "fst (PositionalEncoding_forward A P x) = Inl RuntimeError"
proof -
  have s0: "size0 x = Inr L"
    by (simp add: size0_def sx)
  have sl: "slice_rows (pe P) L = Inr \<lparr>shape = [M, 1, D], elem = elem (pe P)\<rparr>"
    using lt by (simp add: slice_rows_def sp min_def)
  have "broadcast_shapes [L, B, D] [M, Suc 0, D] = None"
    using lt M by (intro broadcast_mismatch) auto
  then have ad: "add_t A x \<lparr>shape = [M, 1, D], elem = elem (pe P)\<rparr> = Inl RuntimeError"
    by (simp add: add_t_def binop_def sx)
  show ?thesis
    unfolding PositionalEncoding_forward_def fst_conv by (simp only: s0 sl ad ebind_Inr)
qed

lemma forward_keeps_module: "snd (PositionalEncoding_forward A P x) = P"
  by (simp add: PositionalEncoding_forward_def)

lemma forward_passes_keep_module: "snd (forward_passes A P xs) = P"
  by (induction xs arbitrary: P)
     (simp_all add: PositionalEncoding_forward_def case_prod_beta)

text \<open>
  C2 (as stated, refuted). The claim: for every input sequence tensor x of length L not
  exceeding max_length, forward returns x plus the first L rows of the table, and the result
  has the shape of x. For a module built with model_dimension 4 and max_length 3 and a
  sequence tensor of shape (2, 4), two rows of four entries, forward succeeds and returns a
  tensor of shape (2, 2, 4): the table carries a batch axis of size 1, against which the two
  rows of x are broadcast.
\<close>

theorem forward_shape_2d_counterexample:
  "\<forall>A. ebind (PositionalEncoding_init A 4 3)
     (\<lambda>P. ebind (fst (PositionalEncoding_forward A P \<lparr>shape = [2, 4], elem = (\<lambda>idx. Fin 0)\<rparr>))
        (\<lambda>y. Inr (shape y))) = Inr [2, 2, 4]"
proof
  fix A
  obtain P where P: "PositionalEncoding_init A 4 3 = Inr P"
    using init_succeeds [of 3 4 A] small_sizes_ok by auto
  have sp: "shape (pe P) = [3, 1, 4]"
    using init_shape [OF P] by simp
  have "fst (PositionalEncoding_forward A P \<lparr>shape = [2, 4], elem = (\<lambda>idx. Fin 0)\<rparr>) =
      ebind (add_t A \<lparr>shape = [2, 4], elem = (\<lambda>idx. Fin 0)\<rparr> \<lparr>shape = [2, 1, 4], elem = elem (pe P)\<rparr>) Inr"
    by (simp add: PositionalEncoding_forward_def size0_def slice_rows_def sp ebind_def
          split: sum.splits)
  then show "ebind (PositionalEncoding_init A 4 3)
     (\<lambda>P. ebind (fst (PositionalEncoding_forward A P \<lparr>shape = [2, 4], elem = (\<lambda>idx. Fin 0)\<rparr>))
        (\<lambda>y. Inr (shape y))) = Inr [2, 2, 4]"
    by (simp add: P ebind_def add_t_def binop_def broadcast_shapes_def)
qed

text \<open>
  C2 (amended). For a module built with (model_dimension, max_length) and an input x of
  shape (L, batch, model_dimension) with L \<le> max_length, forward returns x plus the first L
  rows of the table, added entry by entry in floating point (the row of the table is the
  same for every element of the batch), and the result has the shape of x.
\<close>

theorem forward_adds_table:
  assumes "PositionalEncoding_init A model_dimension max_length = Inr P"
    and "shape x = [L, B, nat model_dimension]"
    and "int L \<le> max_length"
  shows "\<exists>y. fst (PositionalEncoding_forward A P x) = Inr y \<and> shape y = shape x \<and>
           (\<forall>l<L. \<forall>b<B. \<forall>j<nat model_dimension.
              elem y [l, b, j] = fl_add A (elem x [l, b, j]) (elem (pe P) [l, 0, j]))"
proof -
  have sp: "shape (pe P) = [nat max_length, 1, nat model_dimension]"
    using assms(1) by (rule init_shape)
  have "L \<le> nat max_length"
    using assms(3) by linarith
  from forward_in_range [OF sp assms(2) this, of A] assms(2) show ?thesis by simp
qed

theorem forward_adds_table_witness:
  "\<exists>P y. PositionalEncoding_init exact_arith 4 3 = Inr P \<and>
     fst (PositionalEncoding_forward exact_arith P \<lparr>shape = [2, 5, 4], elem = (\<lambda>idx. Fin 7)\<rparr>) = Inr y \<and>
     shape y = [2, 5, 4] \<and> elem y [1, 3, 2] = fl_add exact_arith (Fin 7) (elem (pe P) [1, 0, 2])"
proof -
  obtain P where P: "PositionalEncoding_init exact_arith 4 3 = Inr P"
    using init_succeeds [of 3 4 exact_arith] small_sizes_ok by auto
  have "\<exists>y. fst (PositionalEncoding_forward exact_arith P \<lparr>shape = [2, 5, 4], elem = (\<lambda>idx. Fin 7)\<rparr>) = Inr y \<and>
      shape y = shape \<lparr>shape = [2, 5, 4], elem = (\<lambda>idx. Fin 7)\<rparr> \<and>
      (\<forall>l<2. \<forall>b<5. \<forall>j<nat 4.
         elem y [l, b, j] = fl_add exact_arith (elem \<lparr>shape = [2, 5, 4], elem = (\<lambda>idx. Fin 7)\<rparr> [l, b, j])
                              (elem (pe P) [l, 0, j]))"
    by (rule forward_adds_table [OF P]) simp_all
  then obtain y where
    y: "fst (PositionalEncoding_forward exact_arith P \<lparr>shape = [2, 5, 4], elem = (\<lambda>idx. Fin 7)\<rparr>) = Inr y"
      "shape y = [2, 5, 4]"
    and e: "\<And>l b j. l < 2 \<Longrightarrow> b < 5 \<Longrightarrow> j < 4 \<Longrightarrow>
              elem y [l, b, j] = fl_add exact_arith (Fin 7) (elem (pe P) [l, 0, j])"
    by auto
  from e [of 1 3 2] y P show ?thesis by auto
qed

text \<open>
  C3. The table is a function of (max_length, model_dimension) alone: two constructions
  with the same pair yield the same table, and whatever inputs the two modules process
  afterwards, their tables stay equal.
\<close>

theorem table_depends_on_configuration_only:
  assumes "PositionalEncoding_init A model_dimension max_length = Inr P"
    and "PositionalEncoding_init A model_dimension max_length = Inr P'"
  shows "pe P = pe P' \<and> pe (snd (forward_passes A P xs)) = pe (snd (forward_passes A P' ys))"
  using assms by (simp add: forward_passes_keep_module)

theorem table_depends_on_configuration_only_witness:
  "\<exists>P. PositionalEncoding_init exact_arith 4 3 = Inr P \<and>
     pe (snd (forward_passes exact_arith P [\<lparr>shape = [2, 5, 4], elem = (\<lambda>idx. Fin 7)\<rparr>])) =
     pe (snd (forward_passes exact_arith P
               [\<lparr>shape = [1, 1, 4], elem = (\<lambda>idx. Fin 0)\<rparr>, \<lparr>shape = [3, 2, 4], elem = (\<lambda>idx. Fin 1)\<rparr>]))"
proof -
  obtain P where P: "PositionalEncoding_init exact_arith 4 3 = Inr P"
    using init_succeeds [of 3 4 exact_arith] small_sizes_ok by auto
  from table_depends_on_configuration_only [OF P P] P show ?thesis by blast
qed

text \<open>
  C8. A forward pass leaves the stored table unchanged: the module after a call is the
  module before it, also after any number of calls, and every call of a sequence returns
  what it would return on the module as constructed.
\<close>

theorem forward_leaves_table_unchanged:
  "snd (PositionalEncoding_forward A P x) = P \<and>
   snd (forward_passes A P xs) = P \<and>
   fst (forward_passes A P xs) = map (\<lambda>x. fst (PositionalEncoding_forward A P x)) xs"
proof -
  have "fst (forward_passes A P xs) = map (\<lambda>x. fst (PositionalEncoding_forward A P x)) xs"
    by (induction xs)
       (simp_all add: PositionalEncoding_forward_def case_prod_beta)
  then show ?thesis
    by (simp add: forward_keeps_module forward_passes_keep_module)
qed

section \<open>Properties of the transformer model\<close>

lemma indices_pair: "idx \<in> set (indices [L, B]) \<longleftrightarrow> (\<exists>l<L. \<exists>b<B. idx = [l, b])"
  by (auto simp add: image_iff)

lemma embedding_tokens_ok:
  assumes "shape src = [L, B]"
    and "\<forall>l<L. \<forall>b<B. 0 \<le> elem src [l, b] \<and> elem src [l, b] < int (shape W ! 0)"
  shows "embedding W src =
     Inr \<lparr>shape = [L, B, shape W ! 1],
          elem = (\<lambda>idx. elem W [nat (elem src (butlast idx)), last idx])\<rparr>"
proof -
  have "list_all (\<lambda>idx. 0 \<le> elem src idx \<and> elem src idx < int (shape W ! 0)) (indices (shape src))"
    unfolding list_all_iff assms(1) using assms(2) by (auto simp only: indices_pair)
  then show ?thesis
    by (simp add: embedding_def assms(1))
qed

lemma embedding_shape:
  assumes "embedding W src = Inr e"
  shows "shape e = shape src @ [shape W ! 1]"
  using assms by (auto simp add: embedding_def split: if_splits)

lemma model_init_Inr:
  assumes "TransformerModel_init A ntoken dm enc ev dv = Inr M"
  shows "PositionalEncoding_init A dm max_len_default = Inr (pos_encoder M) \<and>
         0 \<le> ntoken \<and>
         transformer_encoder M = enc \<and> d_model M = dm \<and>
         shape (encoder M) = [nat ntoken, nat dm] \<and>
         shape (decoder_weight M) = [nat ntoken, nat dm] \<and>
         shape (decoder_bias M) = [nat ntoken]"
  using assms
  by (auto simp add: TransformerModel_init_def ebind_def new_parameter_def zeros_def
           split: sum.splits if_splits)

lemma model_init_succeeds:
  assumes "0 \<le> ntoken" and "0 < dm" and "even dm" and "ntoken \<le> 2 ^ 20" and "dm \<le> 2 ^ 20"
  shows "\<exists>M. TransformerModel_init A ntoken dm enc ev dv = Inr M"
proof -
  have "4 * max_len_default * dm \<le> 2 ^ 63 - 1"
    using assms(2,5) by (simp add: max_len_default_def)
  then have "init_sizes_ok dm max_len_default"
    using assms(2,3) by (intro sizes_fit_positive) (simp_all add: max_len_default_def)
  then obtain P where P: "PositionalEncoding_init A dm max_len_default = Inr P"
    using init_succeeds [of max_len_default dm A] assms by (auto simp add: max_len_default_def)
  have n: "nat ntoken \<le> 2 ^ 20" and d: "nat dm \<le> 2 ^ 20"
    using assms by (simp_all add: nat_le_iff)
  have "nat ntoken * nat dm \<le> 2 ^ 20 * 2 ^ 20"
    using n d by (rule mult_le_mono)
  then have s2: "storage_ok 4 [nat ntoken, nat dm]"
    using n d by (simp add: storage_ok_def storage_max_def)
  have s1: "storage_ok 4 [nat ntoken]"
    using n by (simp add: storage_ok_def storage_max_def)
  show ?thesis
    using assms(1,2) P s1 s2
    by (simp add: TransformerModel_init_def ebind_def new_parameter_def zeros_def)
qed

lemma model_forward_embedded:
  assumes "embedding (encoder M) src = Inr e" and "0 \<le> d_model M"
  shows "TransformerModel_forward A M src src_mask =
     (let (r, pos) = PositionalEncoding_forward A (pos_encoder M)
                       (mul_scalar A e (sqrt (real_of_int (d_model M))));
          self1 = M\<lparr>pos_encoder := pos\<rparr>
      in (ebind r (\<lambda>x1.
          ebind (transformer_encoder self1 x1 src_mask) (\<lambda>output.
          linear_layer A (decoder_weight self1) (decoder_bias self1) output)), self1))"
  using assms by (simp add: TransformerModel_forward_def ebind_def py_sqrt_def)

lemma model_forward_too_long:
  assumes init: "TransformerModel_init A ntoken dm enc ev dv = Inr M"
    and src: "shape src = [L, B]" and L: "5000 < L"
  shows "isl (fst (TransformerModel_forward A M src src_mask))"
proof (cases "embedding (encoder M) src")
  case (Inl err)
  then show ?thesis
    by (simp add: TransformerModel_forward_def ebind_def)
next
  case (Inr e)
  from model_init_Inr [OF init] have P: "PositionalEncoding_init A dm max_len_default = Inr (pos_encoder M)"
    and dm: "d_model M = dm" and W: "shape (encoder M) = [nat ntoken, nat dm]"
    by auto
  from init_Inr_cases [OF P] have dpos: "0 < dm" by simp
  have sp: "shape (pe (pos_encoder M)) = [5000, 1, nat dm]"
    using init_shape [OF P] by (simp add: max_len_default_def)
  have se: "shape (mul_scalar A e (sqrt (real_of_int (d_model M)))) = [L, B, nat dm]"
    using embedding_shape [OF Inr] by (simp add: mul_scalar_def map_t_def src W)
  have "fst (PositionalEncoding_forward A (pos_encoder M) (mul_scalar A e (sqrt (real_of_int (d_model M)))))
          = Inl RuntimeError"
    using sp se L by (rule forward_too_long) simp
  then show ?thesis
    using dpos dm by (simp add: model_forward_embedded [OF Inr] case_prod_beta ebind_def)
qed

text \<open>
  C9. A model always holds a positional encoder built with max_len = 5000. For a token
  tensor of shape (L, batch) with L > 5000 the forward pass of the model returns no result
  but fails, and the addition of the table to an embedded input of that length fails with
  a RuntimeError.
\<close>

theorem model_limited_to_5000_positions:
  assumes "TransformerModel_init A ntoken dm enc emb_vals dec_vals = Inr M"
  shows "PositionalEncoding_init A dm 5000 = Inr (pos_encoder M) \<and>
         shape (pe (pos_encoder M)) = [5000, 1, nat dm] \<and>
         (\<forall>src src_mask L B. shape src = [L, B] \<longrightarrow> 5000 < L \<longrightarrow>
            isl (fst (TransformerModel_forward A M src src_mask))) \<and>
         (\<forall>x L B. shape x = [L, B, nat dm] \<longrightarrow> 5000 < L \<longrightarrow>
            fst (PositionalEncoding_forward A (pos_encoder M) x) = Inl RuntimeError)"
proof -
  from model_init_Inr [OF assms] have P: "PositionalEncoding_init A dm 5000 = Inr (pos_encoder M)"
    by (simp add: max_len_default_def)
  have sp: "shape (pe (pos_encoder M)) = [5000, 1, nat dm]"
    using init_shape [OF P] by simp
  have "fst (PositionalEncoding_forward A (pos_encoder M) x) = Inl RuntimeError"
    if "shape x = [L, B, nat dm]" "5000 < L" for x L B
    using sp that by (rule forward_too_long) simp
  with P sp model_forward_too_long [OF assms] show ?thesis by blast
qed

theorem model_limited_to_5000_positions_witness:
  "\<exists>M. TransformerModel_init exact_arith 10 2 (\<lambda>x m. Inr x) (\<lambda>idx. Fin 0) (\<lambda>idx. Fin 0) = Inr M \<and>
     shape (pe (pos_encoder M)) = [5000, 1, 2] \<and>
     isl (fst (TransformerModel_forward exact_arith M \<lparr>shape = [5001, 3], elem = (\<lambda>idx. 0)\<rparr>
                 \<lparr>shape = [5001, 5001], elem = (\<lambda>idx. False)\<rparr>)) \<and>
     fst (PositionalEncoding_forward exact_arith (pos_encoder M)
            \<lparr>shape = [5001, 3, 2], elem = (\<lambda>idx. Fin 0)\<rparr>)
       = Inl RuntimeError"
proof -
  obtain M where M: "TransformerModel_init exact_arith 10 2 (\<lambda>x m. Inr x) (\<lambda>idx. Fin 0) (\<lambda>idx. Fin 0) = Inr M"
    using model_init_succeeds [of 10 2 exact_arith "\<lambda>x m. Inr x" "\<lambda>idx. Fin 0" "\<lambda>idx. Fin 0"] by auto
  from model_limited_to_5000_positions [OF M] M show ?thesis by simp
qed

lemma model_forward_valid_too_long:
  assumes init: "TransformerModel_init A ntoken dm enc ev dv = Inr M"
    and src: "shape src = [L, B]" and L: "5000 < L"
    and tok: "\<forall>l<L. \<forall>b<B. 0 \<le> elem src [l, b] \<and> elem src [l, b] < ntoken"
  shows "fst (TransformerModel_forward A M src src_mask) = Inl RuntimeError"
proof -
  from model_init_Inr [OF init] have P: "PositionalEncoding_init A dm max_len_default = Inr (pos_encoder M)"
    and dm: "d_model M = dm" and W: "shape (encoder M) = [nat ntoken, nat dm]" and nt: "0 \<le> ntoken"
    by auto
  from init_Inr_cases [OF P] have dpos: "0 < dm" by simp
  have sp: "shape (pe (pos_encoder M)) = [5000, 1, nat dm]"
    using init_shape [OF P] by (simp add: max_len_default_def)
  have tok': "\<forall>l<L. \<forall>b<B. 0 \<le> elem src [l, b] \<and> elem src [l, b] < int (shape (encoder M) ! 0)"
    using tok nt by (simp add: W)
  note emb = embedding_tokens_ok [OF src tok']
  have se: "shape (mul_scalar A \<lparr>shape = [L, B, shape (encoder M) ! 1],
          elem = (\<lambda>idx. elem (encoder M) [nat (elem src (butlast idx)), last idx])\<rparr>
          (sqrt (real_of_int (d_model M)))) = [L, B, nat dm]"
    by (simp add: mul_scalar_def map_t_def W)
  have "fst (PositionalEncoding_forward A (pos_encoder M)
          (mul_scalar A \<lparr>shape = [L, B, shape (encoder M) ! 1],
          elem = (\<lambda>idx. elem (encoder M) [nat (elem src (butlast idx)), last idx])\<rparr>
          (sqrt (real_of_int (d_model M))))) = Inl RuntimeError"
    using sp se L by (rule forward_too_long) simp
  then show ?thesis
    using dpos dm by (simp add: model_forward_embedded [OF emb] case_prod_beta ebind_def)
qed

lemma linear_shape:
  assumes "shape x = [L, B, D]" and "shape W = [N, D]"
  shows "\<exists>y. linear_layer A W b x = Inr y \<and> shape y = [L, B, N]"
  using assms by (simp add: linear_layer_def)

text \<open>
  C10 (as stated, refuted). The claim: for every token tensor of shape
  (sequence_length, batch_size) with token ids below ntoken and a compatible mask, forward
  returns a tensor of shape (sequence_length, batch_size, ntoken). With the sizes of the
  notebook (10000 tokens, embedding size 200), for a token tensor of shape (5001, 32) of
  valid tokens and a mask of shape (5001, 5001), the model is built and its forward pass
  fails with a RuntimeError.
\<close>

theorem forward_shape_counterexample:
  "\<forall>A. \<not> isl (TransformerModel_init A ntokens emsize (\<lambda>x m. Inr x) (\<lambda>idx. Fin 0) (\<lambda>idx. Fin 0)) \<and>
        ebind (TransformerModel_init A ntokens emsize (\<lambda>x m. Inr x) (\<lambda>idx. Fin 0) (\<lambda>idx. Fin 0))
          (\<lambda>M. fst (TransformerModel_forward A M \<lparr>shape = [5001, 32], elem = (\<lambda>idx. 0)\<rparr>
                       \<lparr>shape = [5001, 5001], elem = (\<lambda>idx. False)\<rparr>))
          = Inl RuntimeError"
proof
  fix A
  obtain M where M: "TransformerModel_init A ntokens emsize (\<lambda>x m. Inr x) (\<lambda>idx. Fin 0) (\<lambda>idx. Fin 0) = Inr M"
    using model_init_succeeds [of ntokens emsize A "\<lambda>x m. Inr x" "\<lambda>idx. Fin 0" "\<lambda>idx. Fin 0"]
    by (auto simp add: ntokens_def emsize_def)
  have "fst (TransformerModel_forward A M \<lparr>shape = [5001, 32], elem = (\<lambda>idx. 0)\<rparr>
                  \<lparr>shape = [5001, 5001], elem = (\<lambda>idx. False)\<rparr>) = Inl RuntimeError"
    by (rule model_forward_valid_too_long [OF M, where L = 5001 and B = 32])
       (simp_all add: ntokens_def)
  with M show "\<not> isl (TransformerModel_init A ntokens emsize (\<lambda>x m. Inr x) (\<lambda>idx. Fin 0) (\<lambda>idx. Fin 0)) \<and>
        ebind (TransformerModel_init A ntokens emsize (\<lambda>x m. Inr x) (\<lambda>idx. Fin 0) (\<lambda>idx. Fin 0))
          (\<lambda>M. fst (TransformerModel_forward A M \<lparr>shape = [5001, 32], elem = (\<lambda>idx. 0)\<rparr>
                       \<lparr>shape = [5001, 5001], elem = (\<lambda>idx. False)\<rparr>))
          = Inl RuntimeError"
    by (simp add: ebind_def)
qed

text \<open>
  C10 (amended). For every token tensor of shape (sequence_length, batch_size) with
  sequence_length \<le> 5000 and token ids in [0, ntoken), and a mask of shape
  (sequence_length, sequence_length) for which the framework's encoder returns a tensor of
  the shape of its input, forward returns a tensor of shape
  (sequence_length, batch_size, ntoken).
\<close>

theorem forward_shape:
  assumes "TransformerModel_init A ntoken dm enc emb_vals dec_vals = Inr M"
    and "shape src = [L, B]"
    and "\<forall>l<L. \<forall>b<B. 0 \<le> elem src [l, b] \<and> elem src [l, b] < ntoken"
    and "shape src_mask = [L, L]"
    and "L \<le> 5000"
    and "\<forall>x. shape x = [L, B, nat dm] \<longrightarrow> (\<exists>y. enc x src_mask = Inr y \<and> shape y = [L, B, nat dm])"
  shows "\<exists>y. fst (TransformerModel_forward A M src src_mask) = Inr y \<and> shape y = [L, B, nat ntoken]"
proof -
  from model_init_Inr [OF assms(1)] have P: "PositionalEncoding_init A dm max_len_default = Inr (pos_encoder M)"
    and dm: "d_model M = dm" and W: "shape (encoder M) = [nat ntoken, nat dm]" and nt: "0 \<le> ntoken"
    and en: "transformer_encoder M = enc"
    and dw: "shape (decoder_weight M) = [nat ntoken, nat dm]"
    by auto
  from init_Inr_cases [OF P] have dpos: "0 < dm" by simp
  have sp: "shape (pe (pos_encoder M)) = [5000, 1, nat dm]"
    using init_shape [OF P] by (simp add: max_len_default_def)
  have tok': "\<forall>l<L. \<forall>b<B. 0 \<le> elem src [l, b] \<and> elem src [l, b] < int (shape (encoder M) ! 0)"
    using assms(3) nt by (simp add: W)
  note emb = embedding_tokens_ok [OF assms(2) tok']
  define x where "x = mul_scalar A \<lparr>shape = [L, B, shape (encoder M) ! 1],
          elem = (\<lambda>idx. elem (encoder M) [nat (elem src (butlast idx)), last idx])\<rparr>
          (sqrt (real_of_int (d_model M)))"
  have se: "shape x = [L, B, nat dm]"
    by (simp add: x_def mul_scalar_def map_t_def W)
  from forward_in_range [OF sp se assms(5), of A] obtain x1 where
    x1: "fst (PositionalEncoding_forward A (pos_encoder M) x) = Inr x1" "shape x1 = [L, B, nat dm]"
    by auto
  from assms(6) x1(2) obtain y where y: "enc x1 src_mask = Inr y" "shape y = [L, B, nat dm]"
    by blast
  from linear_shape [OF y(2) dw, of A "decoder_bias M"] obtain z where
    z: "linear_layer A (decoder_weight M) (decoder_bias M) y = Inr z" "shape z = [L, B, nat ntoken]"
    by blast
  have fw: "TransformerModel_forward A M src src_mask =
     (let (r, pos) = PositionalEncoding_forward A (pos_encoder M) x;
          self1 = M\<lparr>pos_encoder := pos\<rparr>
      in (ebind r (\<lambda>x1.
          ebind (transformer_encoder self1 x1 src_mask) (\<lambda>output.
          linear_layer A (decoder_weight self1) (decoder_bias self1) output)), self1))"
    unfolding x_def by (rule model_forward_embedded [OF emb]) (simp add: dm dpos less_imp_le)
  have "fst (TransformerModel_forward A M src src_mask) = Inr z"
    unfolding fw
    by (simp add: case_prod_beta Let_def x1(1) en y(1) z(1) ebind_def forward_keeps_module)
  with z(2) show ?thesis by blast
qed

theorem forward_shape_witness:
  "\<exists>M y. TransformerModel_init exact_arith 10 2 (\<lambda>x m. Inr x) (\<lambda>idx. Fin 0) (\<lambda>idx. Fin 0) = Inr M \<and>
     fst (TransformerModel_forward exact_arith M \<lparr>shape = [4, 3], elem = (\<lambda>idx. 7)\<rparr>
            \<lparr>shape = [4, 4], elem = (\<lambda>idx. False)\<rparr>) = Inr y \<and>
     shape y = [4, 3, 10]"
proof -
  obtain M where M: "TransformerModel_init exact_arith 10 2 (\<lambda>x m. Inr x) (\<lambda>idx. Fin 0) (\<lambda>idx. Fin 0) = Inr M"
    using model_init_succeeds [of 10 2 exact_arith "\<lambda>x m. Inr x" "\<lambda>idx. Fin 0" "\<lambda>idx. Fin 0"] by auto
  have "\<exists>y. fst (TransformerModel_forward exact_arith M \<lparr>shape = [4, 3], elem = (\<lambda>idx. 7)\<rparr>
            \<lparr>shape = [4, 4], elem = (\<lambda>idx. False)\<rparr>) = Inr y \<and> shape y = [4, 3, nat 10]"
    by (rule forward_shape [OF M, where L = 4 and B = 3]) simp_all
  with M show ?thesis by simp
qed

section \<open>Properties of the softmax rows\<close>

lemma shifted_exp_nonneg: "0 \<le> shifted_exp mx s"
  by (cases s) (simp_all add: shifted_exp_def)

lemma shifted_exp_pos: "0 < shifted_exp mx (Some v)"
  by (simp add: shifted_exp_def)

lemma member_le_sum_list_real:
  fixes xs :: "real list"
  assumes "\<forall>x\<in>set xs. 0 \<le> x" and "y \<in> set xs"
  shows "y \<le> sum_list xs"
  using assms
proof (induction xs)
  case Nil
  then show ?case by simp
next
  case (Cons a xs)
  have nn: "0 \<le> sum_list xs"
    using Cons.prems(1) by (intro sum_list_nonneg) simp
  show ?case
  proof (cases "y = a")
    case True
    with nn show ?thesis by simp
  next
    case False
    with Cons have "y \<le> sum_list xs" by simp
    moreover from Cons.prems(1) have "0 \<le> a" by simp
    ultimately show ?thesis by simp
  qed
qed

lemma sum_list_divide:
  fixes xs :: "real list"
  shows "sum_list (map (\<lambda>e. e / z) xs) = sum_list xs / z"
  by (induction xs) (simp_all add: add_divide_distrib)

lemma softmax_row_length: "length (softmax_row xs) = length xs"
  by (simp add: softmax_row_def Let_def)

lemma softmax_row_stochastic:
  assumes "Some v \<in> set xs"
  shows "sum_list (softmax_row xs) = 1"
    and "\<forall>j<length xs. 0 \<le> softmax_row xs ! j \<and> softmax_row xs ! j \<le> 1"
proof -
  define es where "es = map (shifted_exp (row_max xs)) xs"
  define z where "z = sum_list es"
  have nn: "\<forall>e\<in>set es. 0 \<le> e"
    by (auto simp add: es_def shifted_exp_nonneg)
  have "shifted_exp (row_max xs) (Some v) \<in> set es"
    using assms by (auto simp add: es_def)
  then have "shifted_exp (row_max xs) (Some v) \<le> z"
    unfolding z_def using nn by (intro member_le_sum_list_real) auto
  with shifted_exp_pos [of "row_max xs" v] have zpos: "0 < z" by linarith
  have sm: "softmax_row xs = map (\<lambda>e. e / z) es"
    using zpos by (simp add: softmax_row_def Let_def es_def [symmetric] z_def [symmetric])
  show "sum_list (softmax_row xs) = 1"
    using zpos by (simp add: sm sum_list_divide z_def [symmetric])
  show "\<forall>j<length xs. 0 \<le> softmax_row xs ! j \<and> softmax_row xs ! j \<le> 1"
  proof (intro allI impI)
    fix j assume j: "j < length xs"
    then have mem: "es ! j \<in> set es" by (simp add: es_def)
    with nn have e0: "0 \<le> es ! j" by blast
    from mem nn have ez: "es ! j \<le> z"
      unfolding z_def by (intro member_le_sum_list_real) auto
    have "softmax_row xs ! j = es ! j / z"
      using j by (simp add: sm es_def)
    with e0 ez zpos show "0 \<le> softmax_row xs ! j \<and> softmax_row xs ! j \<le> 1"
      by simp
  qed
qed

lemma attention_returns:
  assumes "shape Q = [n, d_k]" and "shape K = [m, d_k]" and "shape V = [m, d_v]"
    and "0 < d_k" and "\<forall>t. msk = Some t \<longrightarrow> shape t = [n, m]"
  shows "\<exists>outp. scaled_dot_product_attention Q K V msk =
           Inr (outp, \<lparr>shape = [n, m],
                      elem = (\<lambda>idx. softmax_row (score_row Q K msk d_k m (idx ! 0)) ! (idx ! 1))\<rparr>)"
  using assms
  by (cases msk) (simp_all add: scaled_dot_product_attention_def Let_def)

text \<open>
  C5 (as stated, refuted). The claim: for every Q, K, V of compatible shapes the weight
  matrix is row-stochastic. With one query and no key (K and V of shape (0, 1)) the call
  succeeds and the only row of the weights is empty, so that it sums to 0; with one query,
  one key and a mask that disallows the pair, the call succeeds and the only weight is 0.
\<close>

theorem attention_weights_counterexample:
  "(case scaled_dot_product_attention
           \<lparr>shape = [1, 1], elem = (\<lambda>idx. 1)\<rparr> \<lparr>shape = [0, 1], elem = (\<lambda>idx. 1)\<rparr>
           \<lparr>shape = [0, 1], elem = (\<lambda>idx. 1)\<rparr> None of
      Inl e \<Rightarrow> False
    | Inr (outp, weights) \<Rightarrow> shape weights = [1, 0] \<and> (\<Sum>j<0. elem weights [0, j]) \<noteq> 1) \<and>
   (case scaled_dot_product_attention
           \<lparr>shape = [1, 1], elem = (\<lambda>idx. 1)\<rparr> \<lparr>shape = [1, 1], elem = (\<lambda>idx. 1)\<rparr>
           \<lparr>shape = [1, 1], elem = (\<lambda>idx. 1)\<rparr>
           (Some \<lparr>shape = [1, 1], elem = (\<lambda>idx. True)\<rparr>) of
      Inl e \<Rightarrow> False
    | Inr (outp, weights) \<Rightarrow> shape weights = [1, 1] \<and> (\<Sum>j<1. elem weights [0, j]) \<noteq> 1)"
  by (simp add: scaled_dot_product_attention_def Let_def score_row_def masked_def
        softmax_row_def shifted_exp_def)

text \<open>
  C5 (amended). For Q of shape (n, d_k), K of shape (m, d_k) and V of shape (m, d_v) with
  d_k > 0, and for a call without a mask or with a mask of shape (n, m), provided that every
  query row has at least one key that is not masked (without a mask: that there is at least
  one key when there is a query), scaled dot-product attention returns a weight matrix of
  shape (n, m) whose entries all lie in [0, 1] and each of whose rows sums to 1.
\<close>

theorem attention_weights_row_stochastic:
  assumes "shape Q = [n, d_k]" and "shape K = [m, d_k]" and "shape V = [m, d_v]"
    and "0 < d_k"
    and "\<forall>t. msk = Some t \<longrightarrow> shape t = [n, m]"
    and "\<forall>i<n. \<exists>j<m. \<not> masked msk i j"
  shows "\<exists>output weights.
           scaled_dot_product_attention Q K V msk = Inr (output, weights) \<and>
           shape weights = [n, m] \<and>
           (\<forall>i<n. (\<forall>j<m. 0 \<le> elem weights [i, j] \<and> elem weights [i, j] \<le> 1) \<and>
                   (\<Sum>j<m. elem weights [i, j]) = 1)"
proof -
  define weights where "weights = \<lparr>shape = [n, m],
      elem = (\<lambda>idx. softmax_row (score_row Q K msk d_k m (idx ! 0)) ! (idx ! 1))\<rparr>"
  from attention_returns [OF assms(1-5)] obtain outp where
    res: "scaled_dot_product_attention Q K V msk = Inr (outp, weights)"
    unfolding weights_def by blast
  have row: "(\<forall>j<m. 0 \<le> elem weights [i, j] \<and> elem weights [i, j] \<le> 1) \<and>
             (\<Sum>j<m. elem weights [i, j]) = 1" if "i < n" for i
  proof -
    from that assms(6) obtain j0 where j0: "j0 < m" "\<not> masked msk i j0" by blast
    define r where "r = score_row Q K msk d_k m i"
    have len: "length r = m"
      by (simp add: r_def score_row_def)
    have "r ! j0 = Some (dot_rows Q K d_k i j0 / sqrt (real d_k))"
      using j0 by (simp add: r_def score_row_def)
    moreover have "r ! j0 \<in> set r"
      using j0(1) len by simp
    ultimately have "Some (dot_rows Q K d_k i j0 / sqrt (real d_k)) \<in> set r"
      by simp
    note st = softmax_row_stochastic [OF this]
    have el: "elem weights [i, j] = softmax_row r ! j" for j
      by (simp add: weights_def r_def)
    have "(\<Sum>j<m. elem weights [i, j]) = (\<Sum>j = 0..<length (softmax_row r). softmax_row r ! j)"
      by (simp add: el softmax_row_length len atLeast0LessThan)
    also have "\<dots> = sum_list (softmax_row r)"
      by (rule sum_list_sum_nth [symmetric])
    finally have "(\<Sum>j<m. elem weights [i, j]) = 1"
      using st(1) by simp
    with st(2) len show ?thesis
      by (simp add: el)
  qed
  from res row show ?thesis
    by (intro exI [of _ outp] exI [of _ weights]) (simp add: weights_def)
qed

theorem attention_weights_row_stochastic_witness:
  "\<exists>output weights.
     scaled_dot_product_attention
       \<lparr>shape = [1, 1], elem = (\<lambda>idx. 1)\<rparr> \<lparr>shape = [2, 1], elem = (\<lambda>idx. 1)\<rparr>
       \<lparr>shape = [2, 3], elem = (\<lambda>idx. 5)\<rparr>
       (Some \<lparr>shape = [1, 2], elem = (\<lambda>idx. idx ! 1 = 1)\<rparr>) = Inr (output, weights) \<and>
     shape weights = [1, 2] \<and> elem weights [0, 0] + elem weights [0, 1] = 1"
proof -
  have "\<exists>output weights.
     scaled_dot_product_attention
       \<lparr>shape = [1, 1], elem = (\<lambda>idx. 1)\<rparr> \<lparr>shape = [2, 1], elem = (\<lambda>idx. 1)\<rparr>
       \<lparr>shape = [2, 3], elem = (\<lambda>idx. 5)\<rparr>
       (Some \<lparr>shape = [1, 2], elem = (\<lambda>idx. idx ! 1 = 1)\<rparr>) = Inr (output, weights) \<and>
     shape weights = [1, 2] \<and>
     (\<forall>i<1. (\<forall>j<2. 0 \<le> elem weights [i, j] \<and> elem weights [i, j] \<le> 1) \<and>
             (\<Sum>j<2. elem weights [i, j]) = 1)"
  proof (rule attention_weights_row_stochastic [where n = 1 and d_k = 1 and m = 2 and d_v = 3])
    show "\<forall>i<1. \<exists>j<2. \<not> masked (Some \<lparr>shape = [1, 2], elem = (\<lambda>idx. idx ! 1 = 1)\<rparr>) i j"
      by (intro allI impI exI [of _ 0]) (simp add: masked_def)
  qed simp_all
  then show ?thesis
    by (auto simp add: lessThan_Suc numeral_2_eq_2)
qed

end
